theory Spec2Isabelle
  imports Complex_Main "HOL-Library.Log_Nat"
begin

section \<open>Grouped media of a chat message: the data model\<close>

text \<open>
  The development follows \<^verbatim>\<open>history_view_media_grouped.cpp\<close>. A failed \<^verbatim>\<open>Expects\<close>,
  \<^verbatim>\<open>Assert\<close> or \<^verbatim>\<open>Ensures\<close> terminates the program; it is the \<open>Inl\<close> branch of the result
  of the function that contains it.
\<close>

datatype violation = ExpectsFailed | AssertFailed | EnsuresFailed | UndefinedBehaviour

text \<open>
  A C++ \<^verbatim>\<open>int\<close> is a value of \<^typ>\<open>int\<close> in the 32-bit range \<open>is_int32\<close>. The sizes, rectangles
  and constants that reach the code from outside are \<^verbatim>\<open>int\<close>s by their C++ type. A sum or a
  difference of two \<^verbatim>\<open>int\<close>s that leaves the range is a signed overflow, which is undefined
  behaviour: wherever the code adds or subtracts, the model first tests the exact result with
  \<open>is_int32\<close> and is \<open>Inl UndefinedBehaviour\<close> when the test fails. The same holds for the
  conversion \<^verbatim>\<open>int(...)\<close> of a double outside the range.
\<close>

definition is_int32 :: "int \<Rightarrow> bool" where
  "is_int32 v = (- (2 ^ 31) \<le> v \<and> v < 2 ^ 31)"

subsection \<open>Qt value types\<close>

text \<open>
  \<^verbatim>\<open>QRect(x, y, w, h)\<close> is kept by its constructor arguments, which is what \<^verbatim>\<open>x()\<close>,
  \<^verbatim>\<open>y()\<close>, \<^verbatim>\<open>width()\<close> and \<^verbatim>\<open>height()\<close> return; \<^verbatim>\<open>top()\<close> is \<^verbatim>\<open>y()\<close>. The arithmetic
  that Qt does inside the class is Qt's, not this file's, and is not traced here.
\<close>

datatype QSize = QSize (size_width: int) (size_height: int)

datatype QPoint = QPoint (point_x: int) (point_y: int)

datatype QRect = QRect (rect_x: int) (rect_y: int) (rect_width: int) (rect_height: int)

text \<open>
  \<^verbatim>\<open>QRect::contains(QPoint)\<close> of Qt: the rectangle spans \<open>x1 = x\<close> to \<open>x2 = x + w - 1\<close>
  inclusive, and a rectangle stored with \<open>x2 < x1 - 1\<close> is read with its edges swapped.
\<close>

definition contains :: "QRect \<Rightarrow> QPoint \<Rightarrow> bool" where
  "contains r p =
     (let x1 = rect_x r; x2 = rect_x r + rect_width r - 1;
          y1 = rect_y r; y2 = rect_y r + rect_height r - 1;
          l = (if x2 < x1 - 1 then x2 else x1); rr = (if x2 < x1 - 1 then x1 else x2);
          t = (if y2 < y1 - 1 then y2 else y1); b = (if y2 < y1 - 1 then y1 else y2)
      in if point_x p < l \<or> rr < point_x p then False
         else if point_y p < t \<or> b < point_y p then False
         else True)"

text \<open>The side flags of \<^verbatim>\<open>RectParts\<close> that this file reads and writes, as a set of flags.\<close>

datatype RectPart = Left | Right | Top | Bottom

type_synonym RectParts = "RectPart set"

record GroupMediaLayout =
  layout_geometry :: QRect
  layout_sides :: RectParts

subsection \<open>The column layout\<close>

text \<open>
  The loop of \<^verbatim>\<open>LayoutPlaylist\<close>, with the running \<^verbatim>\<open>top\<close> as the argument \<open>tp\<close>. Every
  iteration ends in \<^verbatim>\<open>top += size.height()\<close>, the last one too.
\<close>

fun LayoutPlaylist_loop ::
  "int \<Rightarrow> int \<Rightarrow> QSize list \<Rightarrow> violation + GroupMediaLayout list" where
  "LayoutPlaylist_loop w tp [] = Inr []"
| "LayoutPlaylist_loop w tp (s # sizes) =
     (if is_int32 (tp + size_height s)
      then (case LayoutPlaylist_loop w (tp + size_height s) sizes of
              Inl e \<Rightarrow> Inl e
            | Inr result \<Rightarrow>
                Inr (\<lparr>layout_geometry = QRect 0 tp w (size_height s),
                      layout_sides = {Left, Right}\<rparr> # result))
      else Inl UndefinedBehaviour)"

definition add_side :: "RectPart \<Rightarrow> GroupMediaLayout \<Rightarrow> GroupMediaLayout" where
  "add_side s l = l\<lparr>layout_sides := layout_sides l \<union> {s}\<rparr>"

definition LayoutPlaylist :: "QSize list \<Rightarrow> violation + GroupMediaLayout list" where
  "LayoutPlaylist sizes =
     (if sizes = [] then Inl ExpectsFailed
      else
        (case LayoutPlaylist_loop (Max (set (map size_width sizes))) 0 sizes of
           Inl e \<Rightarrow> Inl e
         | Inr result \<Rightarrow>
             let result = result[0 := add_side Top (result ! 0)];
                 result = result[length result - 1 :=
                                   add_side Bottom (result ! (length result - 1))]
             in Inr result))"

subsection \<open>Double-precision arithmetic of the proportional rescale\<close>

text \<open>
  \<^verbatim>\<open>countCurrentSize\<close> computes \<^verbatim>\<open>newWidth / float64(maxWidth())\<close> and
  \<^verbatim>\<open>int(std::round(value * factor))\<close> in IEEE 754 binary64. A finite double is a rational
  number, and each operation returns the exact result rounded to the nearest double, ties to
  the even significand. \<open>float64\<close> is that rounding on \<^typ>\<open>rat\<close>: 53 significant bits, the
  exponent unbounded. The operands here are C++ \<^verbatim>\<open>int\<close>s and quotients of them, so no
  result leaves the normal range, where the bounded and the unbounded exponent agree.
\<close>

text \<open>\<open>ilog2 x\<close> is the binary exponent of a positive \<open>x\<close>: \<open>2 ^ ilog2 x \<le> x < 2 ^ (ilog2 x + 1)\<close>.\<close>

definition ilog2 :: "rat \<Rightarrow> int" where
  "ilog2 x =
     (if 1 \<le> x then int (floorlog 2 (nat \<lfloor>x\<rfloor>)) - 1
      else - int (floorlog 2 (nat (\<lceil>1 / x\<rceil> - 1))))"

definition round_half_even :: "rat \<Rightarrow> int" where
  "round_half_even x =
     (let n = \<lfloor>x\<rfloor>; d = x - of_int n
      in if d < 1 / 2 then n else if 1 / 2 < d then n + 1 else if even n then n else n + 1)"

definition float64 :: "rat \<Rightarrow> rat" where
  "float64 x =
     (if x = 0 then 0
      else let ulp = 2 powi (ilog2 \<bar>x\<bar> - 52)
           in of_int (round_half_even (x / ulp)) * ulp)"

text \<open>\<^verbatim>\<open>std::round\<close>: to the nearest integer, halfway cases away from zero.\<close>

definition std_round :: "rat \<Rightarrow> int" where
  "std_round x = (if 0 \<le> x then \<lfloor>x + 1 / 2\<rfloor> else \<lceil>x - 1 / 2\<rceil>)"

text \<open>
  The lambda \<^verbatim>\<open>scale\<close> of \<^verbatim>\<open>countCurrentSize\<close>; \<^verbatim>\<open>value\<close> converts to a double exactly, the
  product is rounded once, and \<^verbatim>\<open>int(...)\<close> of the integral result of \<^verbatim>\<open>std::round\<close> is
  that integer.
\<close>

definition scale :: "rat \<Rightarrow> int \<Rightarrow> int" where
  "scale factor v = std_round (float64 (of_int v * factor))"

subsection \<open>Media, content delegates, parts and the group\<close>

datatype Mode = Grid | Column

text \<open>\<^verbatim>\<open>DocumentData\<close>, reduced to the one query \<^verbatim>\<open>DetectMode\<close> makes.\<close>

datatype DocumentData = DocumentData (isVideoFile: bool)

text \<open>
  The content delegate of a part (\<^verbatim>\<open>HistoryView::Media\<close>), as the answers of the virtual
  methods that the sizing code calls; \<open>content_maxWidth\<close> is \<^verbatim>\<open>maxWidth()\<close> after
  \<^verbatim>\<open>initDimensions()\<close>.
\<close>

record Content =
  content_maxWidth :: int
  sizeForGroupingOptimal :: "int \<Rightarrow> bool \<Rightarrow> QSize"
  sizeForGrouping :: "int \<Rightarrow> bool \<Rightarrow> QSize"

text \<open>
  \<^verbatim>\<open>Data::Media\<close>: \<open>parent\<close> is the identity of the owning \<^verbatim>\<open>HistoryItem\<close>, \<open>document\<close>
  the nullable \<^verbatim>\<open>document()\<close>, \<open>createView\<close> the delegate that \<^verbatim>\<open>createView(parent, item)\<close>
  builds.
\<close>

record DataMedia =
  parent :: nat
  document :: "DocumentData option"
  canBeGrouped :: bool
  createView :: Content

record Part =
  item :: nat
  content :: Content
  initialGeometry :: QRect
  geometry :: QRect
  sides :: RectParts

text \<open>
  The caption text block: \<open>heightFor\<close> is the height of the text laid out with a skip block
  of the given dimensions at the given width, so \<^verbatim>\<open>countHeight(w)\<close> is
  \<open>heightFor c (skipBlock c) w\<close> and \<^verbatim>\<open>updateSkipBlock\<close> replaces \<open>skipBlock\<close>.
\<close>

record Caption =
  isEmpty :: bool
  hasSkipBlock :: bool
  skipBlock :: "int \<times> int"
  heightFor :: "int \<times> int \<Rightarrow> int \<Rightarrow> int"

definition countHeight :: "Caption \<Rightarrow> int \<Rightarrow> int" where
  "countHeight c w = heightFor c (skipBlock c) w"

text \<open>
  The group object. \<open>maxWidth\<close>, \<open>width\<close> and \<open>height\<close> are the fields of the base class
  behind \<^verbatim>\<open>maxWidth()\<close>, \<^verbatim>\<open>width()\<close> and \<^verbatim>\<open>height()\<close>; \<open>isBubbleBottom\<close> and the skip block
  dimensions are what the parent element answers.
\<close>

record GroupedMedia =
  mode :: Mode
  parts :: "Part list"
  caption :: Caption
  maxWidth :: int
  width :: int
  height :: int
  isBubbleBottom :: bool
  skipBlockWidth :: int
  skipBlockHeight :: int

text \<open>The constants of the style sheet that the sizing code reads.\<close>

record Style =
  historyGroupWidthMax :: int
  historyGroupWidthMin :: int
  historyGroupSkip :: int
  msgPadding_left :: int
  msgPadding_right :: int
  msgPadding_bottom :: int
  mediaCaptionSkip :: int

text \<open>
  Modelled from the spec: \<^verbatim>\<open>kMaxSize\<close> is declared in the header, which is not part of the
  sources at hand; the specification gives its value.
\<close>

definition kMaxSize :: nat where
  "kMaxSize = 10"

subsection \<open>Mode detection and group construction\<close>

definition DetectMode :: "DataMedia \<Rightarrow> Mode" where
  "DetectMode media =
     (case document media of
        Some d \<Rightarrow> (if \<not> isVideoFile d then Column else Grid)
      | None \<Rightarrow> Grid)"

text \<open>
  The constructor of \<^verbatim>\<open>Part\<close>: the members are initialised (the view is created), then the
  body asserts \<^verbatim>\<open>canBeGrouped()\<close>. The rectangles start as the null \<^verbatim>\<open>QRect()\<close>, the sides
  as \<^verbatim>\<open>RectPart::None\<close>.
\<close>

definition Part_init :: "DataMedia \<Rightarrow> Part" where
  "Part_init media =
     \<lparr>item = parent media, content = createView media,
      initialGeometry = QRect 0 0 0 0, geometry = QRect 0 0 0 0, sides = {}\<rparr>"

definition Part_ctor :: "DataMedia \<Rightarrow> violation + Part" where
  "Part_ctor media = (if canBeGrouped media then Inr (Part_init media) else Inl AssertFailed)"

fun validateGroupParts_loop :: "Part list \<Rightarrow> nat \<Rightarrow> DataMedia list \<Rightarrow> bool" where
  "validateGroupParts_loop ps i [] = (i = length ps)"
| "validateGroupParts_loop ps i (media # medias) =
     (if length ps \<le> i \<or> item (ps ! i) \<noteq> parent media then False
      else validateGroupParts_loop ps (i + 1) medias)"

definition validateGroupParts :: "GroupedMedia \<Rightarrow> DataMedia list \<Rightarrow> bool" where
  "validateGroupParts g medias = validateGroupParts_loop (parts g) 0 medias"

text \<open>
  The loop of \<^verbatim>\<open>applyGroup\<close> over the state \<^verbatim>\<open>(modeChosen, _mode, _parts)\<close>. The fourth
  component of the state lists the views created by the \<^verbatim>\<open>Part\<close> constructors that ran, in
  order: it records the calls of \<^verbatim>\<open>createView\<close>.
\<close>

fun applyGroup_loop ::
  "bool \<Rightarrow> Mode \<Rightarrow> Part list \<Rightarrow> Content list \<Rightarrow> DataMedia list
     \<Rightarrow> violation + (Mode \<times> Part list \<times> Content list)" where
  "applyGroup_loop modeChosen md ps created [] = Inr (md, ps, created)"
| "applyGroup_loop modeChosen md ps created (media # medias) =
     (let mediaMode = DetectMode media;
          (skip, md', modeChosen') =
             (if \<not> modeChosen then (False, mediaMode, True)
              else if mediaMode \<noteq> md then (True, md, modeChosen)
              else (False, md, modeChosen))
      in if skip then applyGroup_loop modeChosen' md' ps created medias
         else (case Part_ctor media of
                 Inl e \<Rightarrow> Inl e
               | Inr p \<Rightarrow>
                   applyGroup_loop modeChosen' md' (ps @ [p]) (created @ [createView media])
                     medias))"

text \<open>
  \<^verbatim>\<open>applyGroup\<close> returns its boolean, the group as it leaves it, and the views it created.
\<close>

definition applyGroup ::
  "GroupedMedia \<Rightarrow> DataMedia list \<Rightarrow> violation + (bool \<times> GroupedMedia \<times> Content list)" where
  "applyGroup g medias =
     (if validateGroupParts g medias then Inr (True, g, [])
      else (case applyGroup_loop False (mode g) (parts g) [] medias of
              Inl e \<Rightarrow> Inl e
            | Inr (md, ps, created) \<Rightarrow>
                (let g' = g\<lparr>mode := md, parts := ps\<rparr>
                 in if ps = [] then Inr (False, g', created)
                    else if kMaxSize < length ps then Inl EnsuresFailed
                    else Inr (True, g', created))))"

text \<open>
  The two constructors differ only in how they obtain the media pointers; both truncate to
  \<^verbatim>\<open>kMaxSize\<close>, call \<^verbatim>\<open>applyGroup\<close> on the object under construction, whose \<^verbatim>\<open>_parts\<close> is
  empty, and end in \<^verbatim>\<open>Ensures(result)\<close>. \<open>g0\<close> is the object before the call.
\<close>

definition GroupedMedia_ctor :: "GroupedMedia \<Rightarrow> DataMedia list \<Rightarrow> violation + GroupedMedia" where
  "GroupedMedia_ctor g0 medias =
     (case applyGroup (g0\<lparr>parts := []\<rparr>) (take kMaxSize medias) of
        Inl e \<Rightarrow> Inl e
      | Inr (result, g, created) \<Rightarrow> if result then Inr g else Inl EnsuresFailed)"

subsection \<open>Optimal size\<close>

text \<open>The first loop of \<^verbatim>\<open>countOptimalSize\<close>, run in column mode only.\<close>

fun accumulate_maxWidth :: "int \<Rightarrow> Part list \<Rightarrow> int" where
  "accumulate_maxWidth mw [] = mw"
| "accumulate_maxWidth mw (part # ps) =
     accumulate_maxWidth (max mw (content_maxWidth (content part))) ps"

text \<open>The second loop: \<open>index\<close> is the counter before its increment.\<close>

fun optimal_sizes :: "int \<Rightarrow> nat \<Rightarrow> nat \<Rightarrow> Part list \<Rightarrow> QSize list" where
  "optimal_sizes mw partsCount index [] = []"
| "optimal_sizes mw partsCount index (part # ps) =
     sizeForGroupingOptimal (content part) mw (index + 1 = partsCount)
       # optimal_sizes mw partsCount (index + 1) ps"

text \<open>
  The third loop, over the layout and the parts side by side (their lengths are equal when it
  runs); the state is \<^verbatim>\<open>(maxWidth, minHeight)\<close> and the parts already written. Each iteration
  computes \<^verbatim>\<open>x() + width()\<close> and \<^verbatim>\<open>y() + height()\<close>.
\<close>

fun store_layout ::
  "int \<Rightarrow> int \<Rightarrow> GroupMediaLayout list \<Rightarrow> Part list
     \<Rightarrow> violation + (int \<times> int \<times> Part list)" where
  "store_layout mw mh (l # layout) (part # ps) =
     (if is_int32 (rect_x (layout_geometry l) + rect_width (layout_geometry l))
         \<and> is_int32 (rect_y (layout_geometry l) + rect_height (layout_geometry l))
      then (case store_layout
                   (max mw (rect_x (layout_geometry l) + rect_width (layout_geometry l)))
                   (max mh (rect_y (layout_geometry l) + rect_height (layout_geometry l)))
                   layout ps of
              Inl e \<Rightarrow> Inl e
            | Inr (mw', mh', ps') \<Rightarrow>
                Inr (mw', mh',
                     part\<lparr>initialGeometry := layout_geometry l, sides := layout_sides l\<rparr> # ps'))
      else Inl UndefinedBehaviour)"
| "store_layout mw mh layout ps = Inr (mw, mh, [])"

text \<open>
  The caption block that ends both size computations, for the width \<open>w\<close> and the height \<open>h\<close>
  reached before it. \<open>caption_terms\<close> lists the \<^verbatim>\<open>int\<close> results in the order the block
  computes them: the caption width in two subtractions, the skip plus the caption's height,
  that added to the height, and the bottom padding added when the group is the bubble bottom.
\<close>

definition caption_terms :: "Style \<Rightarrow> GroupedMedia \<Rightarrow> int \<Rightarrow> int \<Rightarrow> int list" where
  "caption_terms st g w h =
     (if \<not> isEmpty (caption g)
      then (let captionw0 = w - msgPadding_left st;
                captionw = captionw0 - msgPadding_right st;
                extra = mediaCaptionSkip st + countHeight (caption g) captionw
            in [captionw0, captionw, extra, h + extra]
               @ (if isBubbleBottom g then [h + extra + msgPadding_bottom st] else []))
      else [])"

definition add_caption :: "Style \<Rightarrow> GroupedMedia \<Rightarrow> int \<Rightarrow> int \<Rightarrow> violation + int" where
  "add_caption st g w h =
     (if list_all is_int32 (caption_terms st g w h)
      then Inr (if \<not> isEmpty (caption g)
                then h + (mediaCaptionSkip st
                          + countHeight (caption g) (w - msgPadding_left st - msgPadding_right st))
                     + (if isBubbleBottom g then msgPadding_bottom st else 0)
                else h)
      else Inl UndefinedBehaviour)"

text \<open>
  \<^verbatim>\<open>countOptimalSize\<close>; \<open>LayoutMediaGroup\<close> is the grid packer of \<^verbatim>\<open>ui/grouped_layout\<close>, an
  argument here. The result is the returned size and the group with the geometry stored.
\<close>

definition countOptimalSize ::
  "Style \<Rightarrow> (QSize list \<Rightarrow> int \<Rightarrow> int \<Rightarrow> int \<Rightarrow> GroupMediaLayout list) \<Rightarrow> GroupedMedia
     \<Rightarrow> violation + (QSize \<times> GroupedMedia)" where
  "countOptimalSize st LayoutMediaGroup g =
     (let cap = (if hasSkipBlock (caption g)
                 then (caption g)\<lparr>skipBlock := (skipBlockWidth g, skipBlockHeight g)\<rparr>
                 else caption g);
          g1 = g\<lparr>caption := cap\<rparr>;
          partsCount = length (parts g1);
          mw0 = (if mode g1 = Column then accumulate_maxWidth 0 (parts g1) else 0);
          sizes = optimal_sizes mw0 partsCount 0 (parts g1)
      in case (if mode g1 = Grid
               then Inr (LayoutMediaGroup sizes (historyGroupWidthMax st)
                           (historyGroupWidthMin st) (historyGroupSkip st))
               else LayoutPlaylist sizes) of
           Inl e \<Rightarrow> Inl e
         | Inr layout \<Rightarrow>
             if length layout \<noteq> length (parts g1) then Inl AssertFailed
             else (case store_layout mw0 0 layout (parts g1) of
                     Inl e \<Rightarrow> Inl e
                   | Inr (mw, mh, ps) \<Rightarrow>
                       (case add_caption st g1 mw mh of
                          Inl e \<Rightarrow> Inl e
                        | Inr minHeight \<Rightarrow> Inr (QSize mw minHeight, g1\<lparr>parts := ps\<rparr>))))"

text \<open>
  Names for what the statements about \<^verbatim>\<open>countOptimalSize\<close> speak of: the right and the
  bottom edge of a rectangle, the shared width of the first loop, and the layout that the
  function obtains (the packer's in grid mode, \<open>LayoutPlaylist\<close>'s in column mode).
\<close>

definition right_edge :: "QRect \<Rightarrow> int" where
  "right_edge r = rect_x r + rect_width r"

definition bottom_edge :: "QRect \<Rightarrow> int" where
  "bottom_edge r = rect_y r + rect_height r"

definition shared_width :: "GroupedMedia \<Rightarrow> int" where
  "shared_width g = (if mode g = Column then accumulate_maxWidth 0 (parts g) else 0)"

definition optimal_layout ::
  "Style \<Rightarrow> (QSize list \<Rightarrow> int \<Rightarrow> int \<Rightarrow> int \<Rightarrow> GroupMediaLayout list) \<Rightarrow> GroupedMedia
     \<Rightarrow> violation + GroupMediaLayout list" where
  "optimal_layout st LayoutMediaGroup g =
     (let sizes = optimal_sizes (shared_width g) (length (parts g)) 0 (parts g)
      in if mode g = Grid
         then Inr (LayoutMediaGroup sizes (historyGroupWidthMax st)
                     (historyGroupWidthMin st) (historyGroupSkip st))
         else LayoutPlaylist sizes)"

subsection \<open>Current size\<close>

text \<open>
  The column branch of \<^verbatim>\<open>countCurrentSize\<close>: the state is \<^verbatim>\<open>(index, top)\<close>, and every
  iteration ends in \<^verbatim>\<open>top += size.height()\<close>.
\<close>

fun column_loop ::
  "int \<Rightarrow> nat \<Rightarrow> nat \<Rightarrow> int \<Rightarrow> Part list \<Rightarrow> violation + (int \<times> Part list)" where
  "column_loop newWidth partsCount index tp [] = Inr (tp, [])"
| "column_loop newWidth partsCount index tp (part # ps) =
     (let sz = sizeForGrouping (content part) newWidth (index + 1 = partsCount)
      in if is_int32 (tp + size_height sz)
         then (case column_loop newWidth partsCount (index + 1) (tp + size_height sz) ps of
                 Inl e \<Rightarrow> Inl e
               | Inr (tp', ps') \<Rightarrow>
                   Inr (tp', part\<lparr>geometry := QRect 0 tp newWidth (size_height sz)\<rparr> # ps'))
         else Inl UndefinedBehaviour)"

text \<open>
  The body of the grid branch for one part. \<open>scaled_rect\<close> is the rectangle
  \<^verbatim>\<open>QRect(left, top, width, height)\<close> it computes. \<open>scaled_terms\<close> lists the \<^verbatim>\<open>int\<close> results in
  the order the body computes them: the initial right and bottom edge, each in two additions,
  the four scaled values, the width and the height, each in two subtractions, and the
  \<^verbatim>\<open>top + height\<close> that is accumulated into \<^verbatim>\<open>newHeight\<close>. \<open>scaled_geometry\<close> is the
  rectangle when all of them are \<^verbatim>\<open>int\<close>s.
\<close>

definition scaled_rect :: "int \<Rightarrow> rat \<Rightarrow> int \<Rightarrow> Part \<Rightarrow> QRect" where
  "scaled_rect initialSpacing factor spacing part =
     (let needRightSkip = (Right \<notin> sides part);
          needBottomSkip = (Bottom \<notin> sides part);
          initialLeft = rect_x (initialGeometry part);
          initialTop = rect_y (initialGeometry part);
          initialRight = initialLeft + rect_width (initialGeometry part)
                         + (if needRightSkip then initialSpacing else 0);
          initialBottom = initialTop + rect_height (initialGeometry part)
                          + (if needBottomSkip then initialSpacing else 0);
          left = scale factor initialLeft;
          tp = scale factor initialTop;
          w = scale factor initialRight - left - (if needRightSkip then spacing else 0);
          h = scale factor initialBottom - tp - (if needBottomSkip then spacing else 0)
      in QRect left tp w h)"

definition scaled_terms :: "int \<Rightarrow> rat \<Rightarrow> int \<Rightarrow> Part \<Rightarrow> int list" where
  "scaled_terms initialSpacing factor spacing part =
     (let needRightSkip = (Right \<notin> sides part);
          needBottomSkip = (Bottom \<notin> sides part);
          initialLeft = rect_x (initialGeometry part);
          initialTop = rect_y (initialGeometry part);
          initialRight0 = initialLeft + rect_width (initialGeometry part);
          initialRight = initialRight0 + (if needRightSkip then initialSpacing else 0);
          initialBottom0 = initialTop + rect_height (initialGeometry part);
          initialBottom = initialBottom0 + (if needBottomSkip then initialSpacing else 0);
          left = scale factor initialLeft;
          tp = scale factor initialTop;
          w0 = scale factor initialRight - left;
          w = w0 - (if needRightSkip then spacing else 0);
          h0 = scale factor initialBottom - tp;
          h = h0 - (if needBottomSkip then spacing else 0)
      in [initialRight0, initialRight, initialBottom0, initialBottom, left, tp,
          scale factor initialRight, w0, w, scale factor initialBottom, h0, h, tp + h])"

definition scaled_geometry :: "int \<Rightarrow> rat \<Rightarrow> int \<Rightarrow> Part \<Rightarrow> violation + QRect" where
  "scaled_geometry initialSpacing factor spacing part =
     (if list_all is_int32 (scaled_terms initialSpacing factor spacing part)
      then Inr (scaled_rect initialSpacing factor spacing part)
      else Inl UndefinedBehaviour)"

fun grid_loop ::
  "int \<Rightarrow> rat \<Rightarrow> int \<Rightarrow> int \<Rightarrow> Part list \<Rightarrow> violation + (int \<times> Part list)" where
  "grid_loop initialSpacing factor spacing newHeight [] = Inr (newHeight, [])"
| "grid_loop initialSpacing factor spacing newHeight (part # ps) =
     (case scaled_geometry initialSpacing factor spacing part of
        Inl e \<Rightarrow> Inl e
      | Inr r \<Rightarrow>
          (case grid_loop initialSpacing factor spacing
                  (max newHeight (rect_y r + rect_height r)) ps of
             Inl e \<Rightarrow> Inl e
           | Inr (newHeight', ps') \<Rightarrow> Inr (newHeight', part\<lparr>geometry := r\<rparr> # ps')))"

text \<open>
  \<^verbatim>\<open>countCurrentSize\<close>. With \<^verbatim>\<open>maxWidth() == 0\<close> the grid branch divides by \<open>0.0\<close>; the
  factor is an infinity or a NaN, and so is every scaled value, whose conversion to \<^verbatim>\<open>int\<close>
  is undefined. The early return of the grid branch comes before any arithmetic.
\<close>

definition countCurrentSize ::
  "Style \<Rightarrow> GroupedMedia \<Rightarrow> int \<Rightarrow> violation + (QSize \<times> GroupedMedia)" where
  "countCurrentSize st g w =
     (let newWidth = min w (maxWidth g)
      in if mode g = Grid \<and> newWidth < historyGroupWidthMin st then Inr (QSize newWidth 0, g)
         else if mode g = Column then
           (case column_loop newWidth (length (parts g)) 0 0 (parts g) of
              Inl e \<Rightarrow> Inl e
            | Inr (tp, ps) \<Rightarrow>
                (case add_caption st g newWidth tp of
                   Inl e \<Rightarrow> Inl e
                 | Inr newHeight \<Rightarrow> Inr (QSize newWidth newHeight, g\<lparr>parts := ps\<rparr>)))
         else if maxWidth g = 0 then Inl UndefinedBehaviour
         else
           (let initialSpacing = historyGroupSkip st;
                factor = float64 (of_int newWidth / of_int (maxWidth g));
                spacing = scale factor initialSpacing
            in if \<not> is_int32 spacing then Inl UndefinedBehaviour
               else (case grid_loop initialSpacing factor spacing 0 (parts g) of
                       Inl e \<Rightarrow> Inl e
                     | Inr (newHeight0, ps) \<Rightarrow>
                         (case add_caption st g newWidth newHeight0 of
                            Inl e \<Rightarrow> Inl e
                          | Inr newHeight \<Rightarrow>
                              Inr (QSize newWidth newHeight, g\<lparr>parts := ps\<rparr>)))))"



definition initial_edges :: "int \<Rightarrow> Part \<Rightarrow> int list" where
  "initial_edges initialSpacing part =
     [rect_x (initialGeometry part),
      rect_y (initialGeometry part),
      rect_x (initialGeometry part) + rect_width (initialGeometry part)
        + (if Right \<notin> sides part then initialSpacing else 0),
      rect_y (initialGeometry part) + rect_height (initialGeometry part)
        + (if Bottom \<notin> sides part then initialSpacing else 0)]"

text \<open>
  Names for the statement about two target widths: the factor and the rescaled spacing that
  the grid branch computes for a target width, the gap a member keeps to its right and below
  (the rescaled spacing unless it touches that side of the group), and the condition that the
  members touching the bottom side are the lowest: every other member ends, its gap included,
  no lower than one of them.
\<close>

definition rescale_factor :: "GroupedMedia \<Rightarrow> int \<Rightarrow> rat" where
  "rescale_factor g w = float64 (of_int (min w (maxWidth g)) / of_int (maxWidth g))"

definition rescaled_spacing :: "Style \<Rightarrow> GroupedMedia \<Rightarrow> int \<Rightarrow> int" where
  "rescaled_spacing st g w = scale (rescale_factor g w) (historyGroupSkip st)"

definition right_gap :: "Style \<Rightarrow> GroupedMedia \<Rightarrow> int \<Rightarrow> Part \<Rightarrow> int" where
  "right_gap st g w part = (if Right \<notin> sides part then rescaled_spacing st g w else 0)"

definition bottom_gap :: "Style \<Rightarrow> GroupedMedia \<Rightarrow> int \<Rightarrow> Part \<Rightarrow> int" where
  "bottom_gap st g w part = (if Bottom \<notin> sides part then rescaled_spacing st g w else 0)"

definition bottom_row_lowest :: "Style \<Rightarrow> GroupedMedia \<Rightarrow> bool" where
  "bottom_row_lowest st g =
     (\<forall>p\<in>set (parts g). Bottom \<notin> sides p \<longrightarrow>
        (\<exists>q\<in>set (parts g). Bottom \<in> sides q \<and>
           bottom_edge (initialGeometry p) + historyGroupSkip st
             \<le> bottom_edge (initialGeometry q)))"

subsection \<open>Hit test and selection intervals\<close>

datatype PointState = Outside | Inside | GroupPart

fun pointState_loop :: "Part list \<Rightarrow> QPoint \<Rightarrow> PointState" where
  "pointState_loop [] point = Inside"
| "pointState_loop (part # ps) point =
     (if contains (geometry part) point then GroupPart else pointState_loop ps point)"

definition pointState :: "GroupedMedia \<Rightarrow> QPoint \<Rightarrow> PointState" where
  "pointState g point =
     (if \<not> contains (QRect 0 0 (width g) (height g)) point then Outside
      else pointState_loop (parts g) point)"

record BubbleSelectionInterval =
  interval_top :: int
  interval_height :: int



subsection \<open>The selection merger in the words of the specification\<close>

text \<open>
  The specification describes the merger on vertical spans \<open>(top, bottom)\<close>: the selected
  members are visited in order; a span that overlaps or touches the last open span is merged
  into it as \<open>(min top, max bottom)\<close>, any other span opens a new one; when the last member is
  selected the final span is stretched to the height of the group. The intervals are the
  spans as \<open>(top, bottom - top)\<close>. These definitions are compared with the code below.
\<close>

type_synonym span = "int \<times> int"







definition span_interval :: "span \<Rightarrow> BubbleSelectionInterval" where
  "span_interval s = \<lparr>interval_top = fst s, interval_height = snd s - fst s\<rparr>"





subsection \<open>Example values\<close>

text \<open>Concrete inputs on which the theorems below are run.\<close>

definition ex_style :: Style where
  "ex_style =
     \<lparr>historyGroupWidthMax = 430, historyGroupWidthMin = 100, historyGroupSkip = 4,
      msgPadding_left = 13, msgPadding_right = 13, msgPadding_bottom = 8,
      mediaCaptionSkip = 5\<rparr>"

definition no_caption :: Caption where
  "no_caption =
     \<lparr>isEmpty = True, hasSkipBlock = False, skipBlock = (0, 0), heightFor = (\<lambda>sk w. 0)\<rparr>"

text \<open>
  A file row of natural width 300 and height \<open>h\<close>; asked for its grouped size at a width it
  answers a narrower one, and the last row is 10 higher.
\<close>

definition ex_file :: "int \<Rightarrow> Content" where
  "ex_file h =
     \<lparr>content_maxWidth = 300,
      sizeForGroupingOptimal = (\<lambda>w last. QSize w h),
      sizeForGrouping = (\<lambda>w last. QSize (w - 1) (if last then h + 10 else h))\<rparr>"



definition ex_column :: GroupedMedia where
  "ex_column =
     \<lparr>mode = Column,
      parts = [\<lparr>item = 1, content = ex_file 40, initialGeometry = QRect 0 0 300 40,
                geometry = QRect 0 0 0 0, sides = {Left, Right, Top}\<rparr>,
               \<lparr>item = 2, content = ex_file 50, initialGeometry = QRect 0 40 300 50,
                geometry = QRect 0 0 0 0, sides = {Left, Right, Bottom}\<rparr>],
      caption = no_caption, maxWidth = 300, width = 0, height = 0, isBubbleBottom = True,
      skipBlockWidth = 0, skipBlockHeight = 0\<rparr>"

text \<open>A photo: it answers its own pixel size whatever width it is offered.\<close>

definition ex_photo :: Content where
  "ex_photo =
     \<lparr>content_maxWidth = 430,
      sizeForGroupingOptimal = (\<lambda>w last. QSize 800 600),
      sizeForGrouping = (\<lambda>w last. QSize 800 600)\<rparr>"

text \<open>
  Three photos in one row of natural width 300 with a skip of 4 between them, laid out at
  their natural width.
\<close>

definition ex_grid :: GroupedMedia where
  "ex_grid =
     \<lparr>mode = Grid,
      parts = [\<lparr>item = 1, content = ex_photo, initialGeometry = QRect 0 0 96 100,
                geometry = QRect 0 0 96 100, sides = {Left, Top, Bottom}\<rparr>,
               \<lparr>item = 2, content = ex_photo, initialGeometry = QRect 100 0 96 100,
                geometry = QRect 100 0 96 100, sides = {Top, Bottom}\<rparr>,
               \<lparr>item = 3, content = ex_photo, initialGeometry = QRect 200 0 100 100,
                geometry = QRect 200 0 100 100, sides = {Right, Top, Bottom}\<rparr>],
      caption = no_caption, maxWidth = 300, width = 300, height = 100, isBubbleBottom = True,
      skipBlockWidth = 0, skipBlockHeight = 0\<rparr>"



definition ex_wide :: GroupedMedia where
  "ex_wide =
     \<lparr>mode = Grid,
      parts = [\<lparr>item = 1, content = ex_photo, initialGeometry = QRect 2147483547 0 100 60,
                geometry = QRect 0 0 0 0, sides = {Left, Top, Bottom}\<rparr>],
      caption = no_caption, maxWidth = 2147483647, width = 0, height = 0,
      isBubbleBottom = True, skipBlockWidth = 0, skipBlockHeight = 0\<rparr>"

text \<open>
  Two pictures side by side of which the higher one, 98 high, does not touch the bottom side
  of its group; and one picture whose initial rectangle starts left of the origin.
\<close>

definition ex_low :: GroupedMedia where
  "ex_low =
     \<lparr>mode = Grid,
      parts = [\<lparr>item = 1, content = ex_photo, initialGeometry = QRect 0 0 146 98,
                geometry = QRect 0 0 0 0, sides = {Left, Top}\<rparr>,
               \<lparr>item = 2, content = ex_photo, initialGeometry = QRect 150 0 150 90,
                geometry = QRect 0 0 0 0, sides = {Right, Top, Bottom}\<rparr>],
      caption = no_caption, maxWidth = 300, width = 0, height = 0, isBubbleBottom = True,
      skipBlockWidth = 0, skipBlockHeight = 0\<rparr>"

definition ex_shifted :: GroupedMedia where
  "ex_shifted =
     \<lparr>mode = Grid,
      parts = [\<lparr>item = 1, content = ex_photo, initialGeometry = QRect (- 100) 0 400 100,
                geometry = QRect 0 0 0 0, sides = {Left, Right, Top, Bottom}\<rparr>],
      caption = no_caption, maxWidth = 300, width = 0, height = 0, isBubbleBottom = True,
      skipBlockWidth = 0, skipBlockHeight = 0\<rparr>"

text \<open>Media records: a photo, a file document and a video document of the item \<open>i\<close>.\<close>

definition ex_media_photo :: "nat \<Rightarrow> DataMedia" where
  "ex_media_photo i =
     \<lparr>parent = i, document = None, canBeGrouped = True, createView = ex_photo\<rparr>"

definition ex_media_file :: "nat \<Rightarrow> DataMedia" where
  "ex_media_file i =
     \<lparr>parent = i, document = Some (DocumentData False), canBeGrouped = True,
      createView = ex_file 40\<rparr>"

definition ex_media_video :: "nat \<Rightarrow> DataMedia" where
  "ex_media_video i =
     \<lparr>parent = i, document = Some (DocumentData True), canBeGrouped = True,
      createView = ex_photo\<rparr>"

text \<open>The object under construction, before \<^verbatim>\<open>applyGroup\<close> has run.\<close>

definition ex_fresh :: GroupedMedia where
  "ex_fresh =
     \<lparr>mode = Grid, parts = [], caption = no_caption, maxWidth = 0, width = 0, height = 0,
      isBubbleBottom = True, skipBlockWidth = 0, skipBlockHeight = 0\<rparr>"







text \<open>
  A file row whose optimal grouped size is narrower than its natural width, alone in a
  column group.
\<close>

definition ex_narrow :: Content where
  "ex_narrow =
     \<lparr>content_maxWidth = 300,
      sizeForGroupingOptimal = (\<lambda>w last. QSize 200 40),
      sizeForGrouping = (\<lambda>w last. QSize 200 40)\<rparr>"

definition ex_single :: GroupedMedia where
  "ex_single =
     \<lparr>mode = Column,
      parts = [\<lparr>item = 1, content = ex_narrow, initialGeometry = QRect 0 0 0 0,
                geometry = QRect 0 0 0 0, sides = {}\<rparr>],
      caption = no_caption, maxWidth = 0, width = 0, height = 0, isBubbleBottom = True,
      skipBlockWidth = 0, skipBlockHeight = 0\<rparr>"

text \<open>A packer for one row: every item at its own size, left to right.\<close>

fun ex_packer_row :: "int \<Rightarrow> int \<Rightarrow> QSize list \<Rightarrow> GroupMediaLayout list" where
  "ex_packer_row skip x [] = []"
| "ex_packer_row skip x (s # sizes) =
     \<lparr>layout_geometry = QRect x 0 (size_width s) (size_height s),
      layout_sides = {Top, Bottom} \<union> (if x = 0 then {Left} else {})
                     \<union> (if sizes = [] then {Right} else {})\<rparr>
       # ex_packer_row skip (x + size_width s + skip) sizes"

definition ex_packer :: "QSize list \<Rightarrow> int \<Rightarrow> int \<Rightarrow> int \<Rightarrow> GroupMediaLayout list" where
  "ex_packer sizes wmax wmin skip = ex_packer_row skip 0 sizes"

text \<open>
  The column of two files under a caption that is 20 high on one line (at a width of 200 or
  more), 40 on two, plus the height of its skip block.
\<close>

definition ex_caption :: Caption where
  "ex_caption =
     \<lparr>isEmpty = False, hasSkipBlock = True, skipBlock = (0, 0),
      heightFor = (\<lambda>sk w. (if w < 200 then 40 else 20) + snd sk)\<rparr>"

definition ex_captioned :: GroupedMedia where
  "ex_captioned = ex_column\<lparr>caption := ex_caption, skipBlockWidth := 30, skipBlockHeight := 16\<rparr>"

text \<open>
  A packer that places every item at \<open>x = 2147483647\<close>, and a caption whose text is
  2147483647 high.
\<close>

definition ex_packer_far :: "QSize list \<Rightarrow> int \<Rightarrow> int \<Rightarrow> int \<Rightarrow> GroupMediaLayout list" where
  "ex_packer_far sizes wmax wmin skip =
     map (\<lambda>s. \<lparr>layout_geometry = QRect 2147483647 0 (size_width s) (size_height s),
                layout_sides = {Left, Right, Top, Bottom}\<rparr>) sizes"

definition ex_caption_high :: Caption where
  "ex_caption_high =
     \<lparr>isEmpty = False, hasSkipBlock = False, skipBlock = (0, 0),
      heightFor = (\<lambda>sk w. 2147483647)\<rparr>"

text \<open>
  A single small picture that the example packer lays out at its own size, 80 by 60: the
  natural width of the group is below the grid minimum of the example style. The group is as
  \<^verbatim>\<open>countOptimalSize\<close> leaves it, with the returned width stored as \<open>maxWidth\<close>.
\<close>

definition ex_thumb :: Content where
  "ex_thumb =
     \<lparr>content_maxWidth = 80,
      sizeForGroupingOptimal = (\<lambda>w last. QSize 80 60),
      sizeForGrouping = (\<lambda>w last. QSize 80 60)\<rparr>"

definition ex_small :: GroupedMedia where
  "ex_small =
     \<lparr>mode = Grid,
      parts = [\<lparr>item = 1, content = ex_thumb, initialGeometry = QRect 0 0 80 60,
                geometry = QRect 0 0 0 0, sides = {Top, Bottom, Left, Right}\<rparr>],
      caption = no_caption, maxWidth = 80, width = 0, height = 0, isBubbleBottom = True,
      skipBlockWidth = 0, skipBlockHeight = 0\<rparr>"

section \<open>The column layout is a gap-free stack\<close>

lemma LayoutPlaylist_loop_result:
  assumes "\<forall>i<length sizes. is_int32 (tp + sum_list (map size_height (take (Suc i) sizes)))"
  shows "\<exists>result. LayoutPlaylist_loop w tp sizes = Inr result \<and> length result = length sizes \<and>
     (\<forall>i<length sizes.
        result ! i =
          \<lparr>layout_geometry = QRect 0 (tp + sum_list (map size_height (take i sizes))) w
                               (size_height (sizes ! i)),
           layout_sides = {Left, Right}\<rparr>)"
  using assms
proof (induction sizes arbitrary: tp)
  case Nil
  then show ?case by simp
next
  case (Cons s sizes)
  from Cons.prems have first: "is_int32 (tp + size_height s)" by fastforce
  have "is_int32 (tp + size_height s + sum_list (map size_height (take (Suc i) sizes)))"
    if "i < length sizes" for i
    using Cons.prems [rule_format, of "Suc i"] that by (simp add: add.assoc)
  then obtain rest where rest: "LayoutPlaylist_loop w (tp + size_height s) sizes = Inr rest"
    "length rest = length sizes"
    and nth: "\<And>i. i < length sizes \<Longrightarrow>
        rest ! i =
          \<lparr>layout_geometry =
             QRect 0 (tp + size_height s + sum_list (map size_height (take i sizes))) w
               (size_height (sizes ! i)),
           layout_sides = {Left, Right}\<rparr>"
    using Cons.IH [of "tp + size_height s"] by blast
  let ?r = "\<lparr>layout_geometry = QRect 0 tp w (size_height s), layout_sides = {Left, Right}\<rparr> # rest"
  have run: "LayoutPlaylist_loop w tp (s # sizes) = Inr ?r"
    using first rest(1) by simp
  have "?r ! i =
          \<lparr>layout_geometry = QRect 0 (tp + sum_list (map size_height (take i (s # sizes)))) w
                               (size_height ((s # sizes) ! i)),
           layout_sides = {Left, Right}\<rparr>" if "i < length (s # sizes)" for i
  proof (cases i)
    case 0
    then show ?thesis by simp
  next
    case (Suc j)
    with that have "j < length sizes" by simp
    from nth [OF this] Suc show ?thesis by (simp add: add.assoc)
  qed
  with run rest(2) show ?case by (intro exI [of _ ?r]) simp
qed

text \<open>
  The hypothesis on the running totals is exact: when one of them is not an \<^verbatim>\<open>int\<close>, the loop
  overflows.
\<close>

lemma LayoutPlaylist_loop_overflow:
  assumes "\<not> (\<forall>i<length sizes. is_int32 (tp + sum_list (map size_height (take (Suc i) sizes))))"
  shows "LayoutPlaylist_loop w tp sizes = Inl UndefinedBehaviour"
  using assms
proof (induction sizes arbitrary: tp)
  case Nil
  then show ?case by simp
next
  case (Cons s sizes)
  show ?case
  proof (cases "is_int32 (tp + size_height s)")
    case False
    then show ?thesis by simp
  next
    case True
    from Cons.prems obtain i where i: "i < Suc (length sizes)"
      "\<not> is_int32 (tp + sum_list (map size_height (take (Suc i) (s # sizes))))"
      by auto
    with True obtain j where j: "i = Suc j" by (cases i) auto
    with i have "j < length sizes"
      "\<not> is_int32 (tp + size_height s + sum_list (map size_height (take (Suc j) sizes)))"
      by (simp_all add: add.assoc)
    then have "\<not> (\<forall>i<length sizes.
        is_int32 (tp + size_height s + sum_list (map size_height (take (Suc i) sizes))))"
      by blast
    from Cons.IH [OF this] True show ?thesis by simp
  qed
qed

lemma LayoutPlaylist_overflow:
  assumes "\<not> (\<forall>i<length sizes. is_int32 (sum_list (map size_height (take (Suc i) sizes))))"
  shows "LayoutPlaylist sizes = Inl UndefinedBehaviour"
proof -
  from assms have "sizes \<noteq> []" by auto
  moreover from assms have "LayoutPlaylist_loop w 0 sizes = Inl UndefinedBehaviour" for w
    by (intro LayoutPlaylist_loop_overflow) simp
  ultimately show ?thesis by (simp add: LayoutPlaylist_def)
qed

lemma sum_take_strict:
  fixes hs :: "int list"
  assumes "i < j" "j < length hs" "\<forall>k<length hs - 1. 0 < hs ! k"
  shows "sum_list (take i hs) < sum_list (take j hs)"
  using assms
proof (induction j)
  case 0
  then show ?case by simp
next
  case (Suc j)
  have j: "j < length hs - 1" using Suc.prems by simp
  then have pos: "0 < hs ! j" using Suc.prems by blast
  have step: "sum_list (take (Suc j) hs) = sum_list (take j hs) + hs ! j"
    using j by (simp add: take_Suc_conv_app_nth)
  show ?case
  proof (cases "i = j")
    case True
    with step pos show ?thesis by simp
  next
    case False
    with Suc.prems have "i < j" by simp
    with Suc.IH Suc.prems have "sum_list (take i hs) < sum_list (take j hs)" by simp
    with step pos show ?thesis by simp
  qed
qed

lemma LayoutPlaylist_result:
  assumes "sizes \<noteq> []"
    and "\<forall>i<length sizes. is_int32 (sum_list (map size_height (take (Suc i) sizes)))"
  shows "\<exists>result. LayoutPlaylist sizes = Inr result \<and> length result = length sizes \<and>
     (\<forall>i<length sizes.
        layout_geometry (result ! i) =
          QRect 0 (sum_list (map size_height (take i sizes))) (Max (set (map size_width sizes)))
            (size_height (sizes ! i)) \<and>
        layout_sides (result ! i) =
          {Left, Right} \<union> (if i = 0 then {Top} else {})
            \<union> (if i + 1 = length sizes then {Bottom} else {}))"
proof -
  let ?w = "Max (set (map size_width sizes))"
  from assms(2) have "\<forall>i<length sizes. is_int32 (0 + sum_list (map size_height (take (Suc i) sizes)))"
    by simp
  from LayoutPlaylist_loop_result [OF this, of ?w] obtain r0 where
    r0: "LayoutPlaylist_loop ?w 0 sizes = Inr r0" "length r0 = length sizes"
    and nth0: "\<And>i. i < length sizes \<Longrightarrow>
        r0 ! i =
          \<lparr>layout_geometry = QRect 0 (sum_list (map size_height (take i sizes))) ?w
                               (size_height (sizes ! i)),
           layout_sides = {Left, Right}\<rparr>"
    by auto
  let ?r1 = "r0[0 := add_side Top (r0 ! 0)]"
  let ?r2 = "?r1[length ?r1 - 1 := add_side Bottom (?r1 ! (length ?r1 - 1))]"
  have eq: "LayoutPlaylist sizes = Inr ?r2"
    using assms(1) r0(1) by (simp add: LayoutPlaylist_def Let_def)
  have len: "length ?r2 = length sizes"
    by (simp add: r0(2))
  have nth: "layout_geometry (?r2 ! i) =
          QRect 0 (sum_list (map size_height (take i sizes))) ?w (size_height (sizes ! i)) \<and>
        layout_sides (?r2 ! i) =
          {Left, Right} \<union> (if i = 0 then {Top} else {})
            \<union> (if i + 1 = length sizes then {Bottom} else {})" if "i < length sizes" for i
    using that nth0 [of i] nth0 [of 0] nth0 [of "length sizes - 1"]
    by (auto simp add: nth_list_update r0(2) add_side_def)
  from eq len nth show ?thesis by blast
qed

text \<open>
  C3 (as amended). For a non-empty list of sizes whose running total of heights stays an
  \<^verbatim>\<open>int\<close> after every addition, \<^verbatim>\<open>LayoutPlaylist\<close> returns one rectangle per size; each has
  \<open>x = 0\<close>, the maximal input width, its own input height, and a top that is the sum of the
  heights before it (no vertical gap, the first top is 0). Every rectangle has the sides Left
  and Right, the first also Top, the last also Bottom, and nothing else. The tops are strictly
  increasing when every height but the last is positive.
\<close>

theorem LayoutPlaylist_stack:
  assumes "sizes \<noteq> []"
    and "\<forall>i<length sizes. is_int32 (sum_list (map size_height (take (Suc i) sizes)))"
  shows "\<exists>result. LayoutPlaylist sizes = Inr result \<and> length result = length sizes \<and>
     (\<forall>i<length sizes.
        layout_geometry (result ! i) =
          QRect 0 (sum_list (map size_height (take i sizes))) (Max (set (map size_width sizes)))
            (size_height (sizes ! i)) \<and>
        layout_sides (result ! i) =
          {Left, Right} \<union> (if i = 0 then {Top} else {})
            \<union> (if i + 1 = length sizes then {Bottom} else {})) \<and>
     ((\<forall>k<length sizes - 1. 0 < size_height (sizes ! k)) \<longrightarrow>
        sorted_wrt (<) (map (rect_y \<circ> layout_geometry) result))"
proof -
  from LayoutPlaylist_result [OF assms] obtain result where
    r: "LayoutPlaylist sizes = Inr result" "length result = length sizes"
    and nth: "\<And>i. i < length sizes \<Longrightarrow>
        layout_geometry (result ! i) =
          QRect 0 (sum_list (map size_height (take i sizes))) (Max (set (map size_width sizes)))
            (size_height (sizes ! i)) \<and>
        layout_sides (result ! i) =
          {Left, Right} \<union> (if i = 0 then {Top} else {})
            \<union> (if i + 1 = length sizes then {Bottom} else {})"
    by blast
  have "sorted_wrt (<) (map (rect_y \<circ> layout_geometry) result)"
    if pos: "\<forall>k<length sizes - 1. 0 < size_height (sizes ! k)"
  proof -
    have "rect_y (layout_geometry (result ! i)) < rect_y (layout_geometry (result ! j))"
      if "i < j" "j < length sizes" for i j
    proof -
      have "sum_list (take i (map size_height sizes)) < sum_list (take j (map size_height sizes))"
        using that pos by (intro sum_take_strict) simp_all
      with that nth [of i] nth [of j] show ?thesis by (simp add: take_map)
    qed
    then show ?thesis using r(2) by (simp add: sorted_wrt_iff_nth_less)
  qed
  with r nth show ?thesis by blast
qed

theorem LayoutPlaylist_stack_witness:
  "LayoutPlaylist [QSize 10 5, QSize 20 7] =
     Inr [\<lparr>layout_geometry = QRect 0 0 20 5, layout_sides = {Left, Right, Top}\<rparr>,
          \<lparr>layout_geometry = QRect 0 5 20 7, layout_sides = {Left, Right, Bottom}\<rparr>]"
proof -
  let ?sizes = "[QSize 10 5, QSize 20 7]"
  have ne: "?sizes \<noteq> []" by simp
  have fit: "\<forall>i<length ?sizes. is_int32 (sum_list (map size_height (take (Suc i) ?sizes)))"
    by (simp add: is_int32_def less_Suc_eq numeral_2_eq_2)
  from LayoutPlaylist_stack [OF ne fit] obtain result where
    r: "LayoutPlaylist ?sizes = Inr result" "length result = 2"
    and g: "\<forall>i<2. layout_geometry (result ! i) =
          QRect 0 (sum_list (map size_height (take i ?sizes))) 20
            (size_height (?sizes ! i)) \<and>
        layout_sides (result ! i) =
          {Left, Right} \<union> (if i = 0 then {Top} else {})
            \<union> (if i + 1 = 2 then {Bottom} else {})"
    by auto
  from g have "result ! 0 = \<lparr>layout_geometry = QRect 0 0 20 5, layout_sides = {Left, Right, Top}\<rparr>"
    by (intro GroupMediaLayout.equality) auto
  moreover from g have "result ! 1 = \<lparr>layout_geometry = QRect 0 5 20 7, layout_sides = {Left, Right, Bottom}\<rparr>"
    by (intro GroupMediaLayout.equality) auto
  ultimately have "result = [\<lparr>layout_geometry = QRect 0 0 20 5, layout_sides = {Left, Right, Top}\<rparr>,
          \<lparr>layout_geometry = QRect 0 5 20 7, layout_sides = {Left, Right, Bottom}\<rparr>]"
    using r(2) by (intro nth_equalityI) (auto simp: less_Suc_eq numeral_2_eq_2)
  with r show ?thesis by simp
qed

text \<open>
  As the claim states it, for every non-empty list of sizes, it fails in two ways. On a size
  of height 0 the next rectangle starts at the same top, so the tops are not strictly
  increasing. On heights whose running total leaves the \<^verbatim>\<open>int\<close> range (2147483647, then 1)
  \<^verbatim>\<open>top += size.height()\<close> overflows, and the tops are not the sums of the heights before.
\<close>

theorem LayoutPlaylist_tops_counterexample:
  "LayoutPlaylist [QSize 10 0, QSize 10 5] =
     Inr [\<lparr>layout_geometry = QRect 0 0 10 0, layout_sides = {Left, Right, Top}\<rparr>,
          \<lparr>layout_geometry = QRect 0 0 10 5, layout_sides = {Left, Right, Bottom}\<rparr>]
   \<and> \<not> sorted_wrt (<) (map (rect_y \<circ> layout_geometry) (projr (LayoutPlaylist [QSize 10 0, QSize 10 5])))
   \<and> LayoutPlaylist [QSize 1 2147483647, QSize 1 1, QSize 1 1] = Inl UndefinedBehaviour"
  by (auto simp add: LayoutPlaylist_def Let_def add_side_def is_int32_def)

section \<open>Current size in column mode\<close>







section \<open>Hit test\<close>

lemma contains_iff:
  "0 \<le> w \<Longrightarrow> 0 \<le> h \<Longrightarrow>
     contains (QRect x y w h) (QPoint px py) \<longleftrightarrow> x \<le> px \<and> px < x + w \<and> y \<le> py \<and> py < y + h"
  by (auto simp add: contains_def Let_def)

lemma pointState_loop_GroupPart:
  "pointState_loop ps point = GroupPart \<longleftrightarrow> (\<exists>part\<in>set ps. contains (geometry part) point)"
  by (induction ps) auto

lemma pointState_loop_Inside:
  "pointState_loop ps point = Inside \<longleftrightarrow> \<not> (\<exists>part\<in>set ps. contains (geometry part) point)"
  by (induction ps) auto

lemma pointState_loop_not_Outside: "pointState_loop ps point \<noteq> Outside"
  by (induction ps) auto

text \<open>
  C8. \<^verbatim>\<open>pointState\<close> answers Outside exactly when the bounding rectangle
  \<open>(0, 0, width, height)\<close> does not contain the point. For a point inside it the answer is
  GroupPart when the current geometry of some member contains the point and Inside when none
  does, so it is one of the two and never Outside.
\<close>

theorem pointState_total:
  "(pointState g point = Outside \<longleftrightarrow> \<not> contains (QRect 0 0 (width g) (height g)) point) \<and>
   (contains (QRect 0 0 (width g) (height g)) point \<longrightarrow>
      (pointState g point = GroupPart \<longleftrightarrow> (\<exists>part\<in>set (parts g). contains (geometry part) point)) \<and>
      (pointState g point = Inside \<longleftrightarrow> \<not> (\<exists>part\<in>set (parts g). contains (geometry part) point)) \<and>
      pointState g point \<noteq> Outside)"
  using pointState_loop_not_Outside [of "parts g" point]
  by (simp add: pointState_def pointState_loop_GroupPart pointState_loop_Inside)

theorem pointState_total_witness:
  "contains (QRect 0 0 (width ex_grid) (height ex_grid)) (QPoint 10 10) \<and>
   pointState ex_grid (QPoint 10 10) = GroupPart \<and>
   contains (QRect 0 0 (width ex_grid) (height ex_grid)) (QPoint 98 50) \<and>
   pointState ex_grid (QPoint 98 50) = Inside \<and>
   \<not> contains (QRect 0 0 (width ex_grid) (height ex_grid)) (QPoint 300 5) \<and>
   pointState ex_grid (QPoint 300 5) = Outside"
proof -
  have in1: "contains (QRect 0 0 (width ex_grid) (height ex_grid)) (QPoint 10 10)"
    and in2: "contains (QRect 0 0 (width ex_grid) (height ex_grid)) (QPoint 98 50)"
    and out: "\<not> contains (QRect 0 0 (width ex_grid) (height ex_grid)) (QPoint 300 5)"
    by (simp_all add: ex_grid_def contains_iff)
  have hit: "\<exists>part\<in>set (parts ex_grid). contains (geometry part) (QPoint 10 10)"
    by (simp add: ex_grid_def contains_iff)
  have miss: "\<not> (\<exists>part\<in>set (parts ex_grid). contains (geometry part) (QPoint 98 50))"
    by (simp add: ex_grid_def contains_iff)
  from pointState_total [of ex_grid "QPoint 10 10"] in1 hit
  have "pointState ex_grid (QPoint 10 10) = GroupPart" by blast
  moreover from pointState_total [of ex_grid "QPoint 98 50"] in2 miss
  have "pointState ex_grid (QPoint 98 50) = Inside" by blast
  moreover from pointState_total [of ex_grid "QPoint 300 5"] out
  have "pointState ex_grid (QPoint 300 5) = Outside" by blast
  ultimately show ?thesis using in1 in2 out by blast
qed

section \<open>Group construction and reuse\<close>

lemma validateGroupParts_loop_iff:
  "validateGroupParts_loop ps i medias \<longleftrightarrow>
     i \<le> length ps \<and> map parent medias = map item (drop i ps)"
proof (induction medias arbitrary: i)
  case Nil
  then show ?case by auto
next
  case (Cons media medias)
  show ?case
  proof (cases "i < length ps")
    case True
    then have "drop i ps = ps ! i # drop (Suc i) ps"
      by (simp add: Cons_nth_drop_Suc)
    with True Cons.IH [of "i + 1"] show ?thesis by auto
  next
    case False
    then show ?thesis by auto
  qed
qed

lemma validateGroupParts_iff:
  "validateGroupParts g medias \<longleftrightarrow> map parent medias = map item (parts g)"
  by (simp add: validateGroupParts_def validateGroupParts_loop_iff)

text \<open>
  C4. When the candidate sequence has the length of the member list and the same owning
  items in the same order, \<^verbatim>\<open>applyGroup\<close> returns true, the group is exactly the one it was
  given, and no \<^verbatim>\<open>Part\<close> was constructed: the list of created views is empty.
\<close>

theorem applyGroup_reuse:
  assumes "length medias = length (parts g)"
    and "\<forall>i<length medias. parent (medias ! i) = item (parts g ! i)"
  shows "applyGroup g medias = Inr (True, g, [])"
proof -
  from assms have "map parent medias = map item (parts g)"
    by (intro nth_equalityI) simp_all
  then show ?thesis by (simp add: applyGroup_def validateGroupParts_iff)
qed

theorem applyGroup_reuse_witness:
  "length [ex_media_photo 1, ex_media_video 2, ex_media_photo 3] = length (parts ex_grid) \<and>
   applyGroup ex_grid [ex_media_photo 1, ex_media_video 2, ex_media_photo 3]
     = Inr (True, ex_grid, [])"
proof -
  have l: "length [ex_media_photo 1, ex_media_video 2, ex_media_photo 3] = length (parts ex_grid)"
    by (simp add: ex_grid_def)
  have m: "\<forall>i<length [ex_media_photo 1, ex_media_video 2, ex_media_photo 3].
      parent ([ex_media_photo 1, ex_media_video 2, ex_media_photo 3] ! i) = item (parts ex_grid ! i)"
    by (simp add: ex_grid_def ex_media_photo_def ex_media_video_def less_Suc_eq numeral_3_eq_3)
  from applyGroup_reuse [OF l m] l show ?thesis by blast
qed

text \<open>
  C5. A group under construction has no parts. Given no candidate at all,
  \<^verbatim>\<open>validateGroupParts\<close> compares nothing, finds \<open>0 = 0\<close> and answers true, so \<^verbatim>\<open>applyGroup\<close>
  returns true before it reaches its test of an empty \<^verbatim>\<open>_parts\<close>, and the constructor's
  \<^verbatim>\<open>Ensures(result)\<close> passes: the group exists with an empty member list.
\<close>

theorem applyGroup_empty_succeeds:
  "applyGroup (g\<lparr>parts := []\<rparr>) [] = Inr (True, g\<lparr>parts := []\<rparr>, []) \<and>
   GroupedMedia_ctor g [] = Inr (g\<lparr>parts := []\<rparr>)"
  by (simp add: applyGroup_def validateGroupParts_def GroupedMedia_ctor_def)


lemma applyGroup_loop_length:
  "applyGroup_loop modeChosen md ps created medias = Inr (md', ps', created') \<Longrightarrow>
     length ps \<le> length ps'"
proof (induction medias arbitrary: modeChosen md ps created)
  case Nil
  then show ?case by simp
next
  case (Cons media medias)
  from Cons.prems show ?case
    by (auto simp add: Let_def split: if_splits sum.splits dest!: Cons.IH)
qed

lemma applyGroup_loop_first:
  "applyGroup_loop False md ps created (media # medias) = Inr (md', ps', created') \<Longrightarrow> ps' \<noteq> []"
  by (auto simp add: Let_def split: sum.splits dest!: applyGroup_loop_length)

text \<open>
  The first candidate is always accepted, so the loop leaves \<^verbatim>\<open>_parts\<close> empty only when it
  had nothing to iterate and \<^verbatim>\<open>_parts\<close> was empty before, and then the validation has
  answered true already: no input makes \<^verbatim>\<open>applyGroup\<close> return false.
\<close>

lemma applyGroup_never_false: "applyGroup g medias \<noteq> Inr (False, g', created)"
proof (cases "validateGroupParts g medias")
  case True
  then show ?thesis by (simp add: applyGroup_def)
next
  case False
  show ?thesis
  proof (cases medias)
    case Nil
    with False have "parts g \<noteq> []" by (auto simp add: validateGroupParts_iff)
    with Nil False show ?thesis by (simp add: applyGroup_def)
  next
    case (Cons media ms)
    with False show ?thesis
      by (auto simp add: applyGroup_def Let_def simp del: applyGroup_loop.simps
          split: sum.splits prod.splits if_splits dest: applyGroup_loop_first)
  qed
qed


lemma applyGroup_loop_chosen:
  "applyGroup_loop True md ps created medias =
     (if \<exists>m\<in>set (filter (\<lambda>m. DetectMode m = md) medias). \<not> canBeGrouped m
      then Inl AssertFailed
      else Inr (md, ps @ map Part_init (filter (\<lambda>m. DetectMode m = md) medias),
                created @ map createView (filter (\<lambda>m. DetectMode m = md) medias)))"
proof (induction medias arbitrary: ps created)
  case Nil
  show ?case by simp
next
  case (Cons media medias)
  show ?case
  proof (cases "DetectMode media = md")
    case False
    then show ?thesis by (auto simp add: Let_def Cons.IH)
  next
    case True
    show ?thesis
    proof (cases "canBeGrouped media")
      case False
      with True show ?thesis by (simp add: Let_def Part_ctor_def)
    next
      case g: True
      with True show ?thesis by (auto simp add: Let_def Part_ctor_def Cons.IH)
    qed
  qed
qed

lemma applyGroup_loop_rebuild:
  assumes "medias \<noteq> []"
  shows "applyGroup_loop False md ps created medias =
     (if \<exists>m\<in>set (filter (\<lambda>m. DetectMode m = DetectMode (hd medias)) medias). \<not> canBeGrouped m
      then Inl AssertFailed
      else Inr (DetectMode (hd medias),
                ps @ map Part_init (filter (\<lambda>m. DetectMode m = DetectMode (hd medias)) medias),
                created
                @ map createView (filter (\<lambda>m. DetectMode m = DetectMode (hd medias)) medias)))"
proof -
  from assms obtain media ms where m: "medias = media # ms" by (cases medias) auto
  show ?thesis
  proof (cases "canBeGrouped media")
    case False
    with m show ?thesis by (simp add: Let_def Part_ctor_def)
  next
    case True
    with m show ?thesis by (auto simp add: Let_def Part_ctor_def applyGroup_loop_chosen)
  qed
qed

text \<open>
  The outcome of \<^verbatim>\<open>applyGroup\<close> on a group without members and at least one candidate, in
  terms of the candidates of the first candidate's mode.
\<close>

lemma applyGroup_fresh:
  assumes "parts g = []" and "medias \<noteq> []"
  shows "applyGroup g medias =
     (if \<exists>m\<in>set (filter (\<lambda>m. DetectMode m = DetectMode (hd medias)) medias). \<not> canBeGrouped m
      then Inl AssertFailed
      else if kMaxSize < length (filter (\<lambda>m. DetectMode m = DetectMode (hd medias)) medias)
      then Inl EnsuresFailed
      else Inr (True,
                g\<lparr>mode := DetectMode (hd medias),
                  parts := map Part_init
                             (filter (\<lambda>m. DetectMode m = DetectMode (hd medias)) medias)\<rparr>,
                map createView (filter (\<lambda>m. DetectMode m = DetectMode (hd medias)) medias)))"
proof -
  from assms have v: "\<not> validateGroupParts g medias"
    by (simp add: validateGroupParts_iff)
  from assms(2) have ne: "filter (\<lambda>m. DetectMode m = DetectMode (hd medias)) medias \<noteq> []"
    by (cases medias) auto
  from v ne assms(1) show ?thesis
    by (auto simp add: applyGroup_def applyGroup_loop_rebuild [OF assms(2)])
qed

text \<open>
  Both constructors run \<^verbatim>\<open>applyGroup\<close> on the first \<^verbatim>\<open>kMaxSize\<close> candidates with \<^verbatim>\<open>_parts\<close>
  empty, so the final \<^verbatim>\<open>Ensures\<close> cannot fail: the constructed group has the mode of the
  first candidate and one member for each of the first \<^verbatim>\<open>kMaxSize\<close> candidates of that mode,
  unless one of these fails \<^verbatim>\<open>canBeGrouped()\<close>.
\<close>

lemma GroupedMedia_ctor_members:
  assumes "medias \<noteq> []"
  shows "GroupedMedia_ctor g0 medias =
     (if \<exists>m\<in>set (filter (\<lambda>m. DetectMode m = DetectMode (hd medias)) (take kMaxSize medias)).
            \<not> canBeGrouped m
      then Inl AssertFailed
      else Inr (g0\<lparr>mode := DetectMode (hd medias),
                   parts := map (\<lambda>m. \<lparr>item = parent m, content = createView m,
                                        initialGeometry = QRect 0 0 0 0,
                                        geometry = QRect 0 0 0 0, sides = {}\<rparr>)
                              (filter (\<lambda>m. DetectMode m = DetectMode (hd medias))
                                 (take kMaxSize medias))\<rparr>))"
proof -
  let ?ms = "take kMaxSize medias"
  from assms have ne: "?ms \<noteq> []" and h: "hd ?ms = hd medias"
    by (simp_all add: kMaxSize_def)
  have "length (filter (\<lambda>m. DetectMode m = DetectMode (hd medias)) ?ms) \<le> length ?ms"
    by (rule length_filter_le)
  then have k: "\<not> kMaxSize < length (filter (\<lambda>m. DetectMode m = DetectMode (hd medias)) ?ms)"
    by simp
  have p: "parts (g0\<lparr>parts := []\<rparr>) = []" by simp
  have pi: "Part_init = (\<lambda>m. \<lparr>item = parent m, content = createView m,
                                initialGeometry = QRect 0 0 0 0,
                                geometry = QRect 0 0 0 0, sides = {}\<rparr>)"
    by (rule ext) (simp add: Part_init_def)
  show ?thesis
    unfolding GroupedMedia_ctor_def applyGroup_fresh [OF p ne] h
    using k by (auto simp add: pi)
qed




text \<open>
  The two failures on a group without members: a second file that cannot be grouped fails the
  \<^verbatim>\<open>Assert\<close>, and eleven files fail the \<^verbatim>\<open>Ensures\<close>.
\<close>

lemma applyGroup_assert_example:
  "applyGroup ex_fresh [ex_media_file 1, (ex_media_file 2)\<lparr>canBeGrouped := False\<rparr>]
     = Inl AssertFailed"
  by (simp add: applyGroup_def validateGroupParts_def ex_fresh_def DetectMode_def Part_ctor_def
      Let_def ex_media_file_def)

lemma applyGroup_ensures_example:
  "applyGroup ex_fresh (replicate 11 (ex_media_file 1)) = Inl EnsuresFailed"
proof -
  have p: "parts ex_fresh = []" by (simp add: ex_fresh_def)
  have ne: "replicate 11 (ex_media_file 1) \<noteq> []" by simp
  show ?thesis
    unfolding applyGroup_fresh [OF p ne]
    by (simp add: kMaxSize_def ex_media_file_def)
qed

section \<open>Selection intervals\<close>

lemma span_interval_simps:
  "interval_top (span_interval s) = fst s"
  "interval_top (span_interval s) + interval_height (span_interval s) = snd s"
  "interval_height (span_interval s) = snd s - fst s"
  by (simp_all add: span_interval_def)



















section \<open>Optimal size\<close>

lemma Max_insert_max:
  fixes a b :: int
  shows "finite S \<Longrightarrow> Max (insert (max a b) S) = Max (insert a (insert b S))"
  by (cases "S = {}") (simp_all add: max.assoc)

lemma accumulate_maxWidth_Max:
  "accumulate_maxWidth mw ps = Max (insert mw ((content_maxWidth \<circ> content) ` set ps))"
proof (induction ps arbitrary: mw)
  case Nil
  then show ?case by simp
next
  case (Cons part ps)
  have "Max (insert (max mw (content_maxWidth (content part))) ((content_maxWidth \<circ> content) ` set ps))
      = Max (insert mw (insert (content_maxWidth (content part)) ((content_maxWidth \<circ> content) ` set ps)))"
    by (rule Max_insert_max) simp
  with Cons.IH show ?case by simp
qed

text \<open>
  The third loop overflows exactly when the right or the bottom edge of some rectangle of the
  layout is not an \<^verbatim>\<open>int\<close>; otherwise it returns the greatest right and bottom edges, the
  starting values included, and stores each rectangle and its sides in its part.
\<close>

lemma store_layout_result:
  "length layout = length ps \<Longrightarrow>
     store_layout mw mh layout ps =
       (if list_all (\<lambda>l. is_int32 (right_edge (layout_geometry l))
                         \<and> is_int32 (bottom_edge (layout_geometry l))) layout
        then Inr (Max (insert mw ((right_edge \<circ> layout_geometry) ` set layout)),
                  Max (insert mh ((bottom_edge \<circ> layout_geometry) ` set layout)),
                  map (\<lambda>(part, l). part\<lparr>initialGeometry := layout_geometry l,
                                          sides := layout_sides l\<rparr>) (zip ps layout))
        else Inl UndefinedBehaviour)"
proof (induction layout ps arbitrary: mw mh rule: list_induct2)
  case Nil
  then show ?case by simp
next
  case (Cons l layout part ps)
  let ?r = "rect_x (layout_geometry l) + rect_width (layout_geometry l)"
  let ?b = "rect_y (layout_geometry l) + rect_height (layout_geometry l)"
  have m1: "Max (insert (max mw ?r) ((right_edge \<circ> layout_geometry) ` set layout))
      = Max (insert mw (insert ?r ((right_edge \<circ> layout_geometry) ` set layout)))"
    by (rule Max_insert_max) simp
  have m2: "Max (insert (max mh ?b) ((bottom_edge \<circ> layout_geometry) ` set layout))
      = Max (insert mh (insert ?b ((bottom_edge \<circ> layout_geometry) ` set layout)))"
    by (rule Max_insert_max) simp
  show ?case
  proof (cases "is_int32 ?r \<and> is_int32 ?b")
    case False
    then show ?thesis by (auto simp add: right_edge_def bottom_edge_def)
  next
    case True
    show ?thesis
    proof (cases "list_all (\<lambda>l. is_int32 (right_edge (layout_geometry l))
                         \<and> is_int32 (bottom_edge (layout_geometry l))) layout")
      case f: False
      with True Cons.IH [of "max mw ?r" "max mh ?b"] show ?thesis
        by (simp add: right_edge_def bottom_edge_def)
    next
      case t: True
      with True Cons.IH [of "max mw ?r" "max mh ?b"] m1 m2 show ?thesis
        by (simp add: right_edge_def bottom_edge_def)
    qed
  qed
qed

lemma Max_insert_Max:
  fixes a :: int
  assumes "finite N" and "finite R"
  shows "Max (insert (Max (insert a N)) R) = Max (insert a (R \<union> N))"
proof (cases "R = {}")
  case True
  then show ?thesis by simp
next
  case False
  have "Max (insert (Max (insert a N)) R) = max (Max (insert a N)) (Max R)"
    using assms False by simp
  also have "\<dots> = Max (insert a N \<union> R)"
    using assms False by (intro Max.union [symmetric]) simp_all
  also have "insert a N \<union> R = insert a (R \<union> N)" by auto
  finally show ?thesis .
qed

lemma shared_width_Max:
  "shared_width g =
     Max (insert 0 (if mode g = Column then (content_maxWidth \<circ> content) ` set (parts g) else {}))"
  by (simp add: shared_width_def accumulate_maxWidth_Max)

text \<open>The two ways in which the function stops before it stores anything.\<close>

lemma countOptimalSize_no_layout:
  "optimal_layout st LayoutMediaGroup g = Inl e \<Longrightarrow>
     countOptimalSize st LayoutMediaGroup g = Inl e"
  by (simp add: countOptimalSize_def optimal_layout_def shared_width_def Let_def cong: if_cong)

lemma countOptimalSize_assert:
  "optimal_layout st LayoutMediaGroup g = Inr layout \<Longrightarrow> length layout \<noteq> length (parts g) \<Longrightarrow>
     countOptimalSize st LayoutMediaGroup g = Inl AssertFailed"
  by (simp add: countOptimalSize_def optimal_layout_def shared_width_def Let_def cong: if_cong)

text \<open>
  C9 (as amended). When the layout has one rectangle per member, \<^verbatim>\<open>countOptimalSize\<close> has
  undefined behaviour if the right edge \<open>x + width\<close> or the bottom edge \<open>y + height\<close> of a
  rectangle, or one of the sums and differences of the caption block, is not an \<^verbatim>\<open>int\<close>.
  Otherwise it stores the rectangles and their sides as the members' initial geometry and
  sides, refreshes the skip block of the caption, and returns: as \<open>maxWidth\<close> the greatest of
  0, the right edges of the rectangles and, in column mode, the natural widths
  \<^verbatim>\<open>maxWidth()\<close> of the members' own content; as \<open>minHeight\<close> the greatest of 0 and the
  bottom edges, plus, for a non-empty caption, the caption skip, the caption's height at
  \<open>maxWidth\<close> less the left and right padding (measured with the refreshed skip block), and
  the bottom padding when the group is the bubble bottom.
\<close>

theorem countOptimalSize_size:
  assumes "optimal_layout st LayoutMediaGroup g = Inr layout"
    and "length layout = length (parts g)"
  shows
    "let rects = map layout_geometry layout;
         mw = Max (insert 0 (right_edge ` set rects
                \<union> (if mode g = Column then (content_maxWidth \<circ> content) ` set (parts g)
                    else {})));
         mh = Max (insert 0 (bottom_edge ` set rects));
         sk = (if hasSkipBlock (caption g) then (skipBlockWidth g, skipBlockHeight g)
               else skipBlock (caption g));
         captionw0 = mw - msgPadding_left st;
         captionw = captionw0 - msgPadding_right st;
         extra = mediaCaptionSkip st + heightFor (caption g) sk captionw;
         checked = (if isEmpty (caption g) then []
                 else [captionw0, captionw, extra, mh + extra]
                      @ (if isBubbleBottom g then [mh + extra + msgPadding_bottom st] else []))
     in countOptimalSize st LayoutMediaGroup g =
          (if list_all (\<lambda>r. is_int32 (right_edge r) \<and> is_int32 (bottom_edge r)) rects
              \<and> list_all is_int32 checked
           then Inr (QSize mw
                       (if isEmpty (caption g) then mh
                        else if isBubbleBottom g then mh + extra + msgPadding_bottom st
                        else mh + extra),
                     g\<lparr>caption := (caption g)\<lparr>skipBlock := sk\<rparr>,
                       parts := map (\<lambda>(part, l). part\<lparr>initialGeometry := layout_geometry l,
                                                       sides := layout_sides l\<rparr>)
                                  (zip (parts g) layout)\<rparr>)
           else Inl UndefinedBehaviour)"
proof -
  let ?sk = "if hasSkipBlock (caption g) then (skipBlockWidth g, skipBlockHeight g)
             else skipBlock (caption g)"
  let ?cap = "if hasSkipBlock (caption g)
              then (caption g)\<lparr>skipBlock := (skipBlockWidth g, skipBlockHeight g)\<rparr>
              else caption g"
  let ?g1 = "g\<lparr>caption := ?cap\<rparr>"
  let ?rects = "map layout_geometry layout"
  let ?R = "right_edge ` set ?rects"
  let ?B = "bottom_edge ` set ?rects"
  let ?N = "if mode g = Column then (content_maxWidth \<circ> content) ` set (parts g) else {}"
  let ?ps = "map (\<lambda>(part, l). part\<lparr>initialGeometry := layout_geometry l, sides := layout_sides l\<rparr>)
          (zip (parts g) layout)"
  let ?mw = "Max (insert 0 (?R \<union> ?N))"
  let ?mh = "Max (insert 0 ?B)"
  let ?cwa = "?mw - msgPadding_left st"
  let ?cwb = "?cwa - msgPadding_right st"
  let ?extra = "mediaCaptionSkip st + heightFor (caption g) ?sk ?cwb"
  let ?sums = "if isEmpty (caption g) then []
                 else [?cwa, ?cwb, ?extra, ?mh + ?extra]
                      @ (if isBubbleBottom g then [?mh + ?extra + msgPadding_bottom st] else [])"
  let ?fits = "list_all (\<lambda>r. is_int32 (right_edge r) \<and> is_int32 (bottom_edge r)) ?rects"
  let ?res = "Inr (QSize ?mw
                       (if isEmpty (caption g) then ?mh
                        else if isBubbleBottom g then ?mh + ?extra + msgPadding_bottom st
                        else ?mh + ?extra),
                     g\<lparr>caption := (caption g)\<lparr>skipBlock := ?sk\<rparr>, parts := ?ps\<rparr>)"
  have capeq: "?cap = (caption g)\<lparr>skipBlock := ?sk\<rparr>" by simp
  have "finite ?N" by simp
  then have "Max (insert (Max (insert 0 ?N)) ?R) = Max (insert 0 (?R \<union> ?N))"
    by (rule Max_insert_Max) simp
  then have mw: "Max (insert (shared_width g) ((right_edge \<circ> layout_geometry) ` set layout)) = ?mw"
    by (simp only: shared_width_Max image_comp set_map image_image comp_def)
  have mh: "Max (insert 0 ((bottom_edge \<circ> layout_geometry) ` set layout)) = ?mh"
    by (simp add: image_image)
  have fits: "list_all (\<lambda>l. is_int32 (right_edge (layout_geometry l))
                         \<and> is_int32 (bottom_edge (layout_geometry l))) layout = ?fits"
    by (simp add: list_all_iff)
  have st: "store_layout (shared_width g) 0 layout (parts g) =
      (if ?fits then Inr (?mw, ?mh, ?ps) else Inl UndefinedBehaviour)"
    using store_layout_result [OF assms(2), of "shared_width g" 0]
    by (simp only: mw mh fits)
  have terms: "caption_terms st ?g1 ?mw ?mh = ?sums"
    by (cases "hasSkipBlock (caption g)") (simp_all add: caption_terms_def Let_def countHeight_def)
  have ac: "add_caption st ?g1 ?mw ?mh =
      (if list_all is_int32 ?sums
       then Inr (if isEmpty (caption g) then ?mh
                 else if isBubbleBottom g then ?mh + ?extra + msgPadding_bottom st
                 else ?mh + ?extra)
       else Inl UndefinedBehaviour)"
    unfolding add_caption_def terms
    by (cases "hasSkipBlock (caption g)") (simp_all add: countHeight_def)
  have run: "countOptimalSize st LayoutMediaGroup g =
      (case store_layout (shared_width g) 0 layout (parts g) of
         Inl e \<Rightarrow> Inl e
       | Inr (mw, mh, ps) \<Rightarrow>
           (case add_caption st ?g1 mw mh of
              Inl e \<Rightarrow> Inl e
            | Inr minHeight \<Rightarrow> Inr (QSize mw minHeight, ?g1\<lparr>parts := ps\<rparr>)))"
    using assms
    by (simp add: countOptimalSize_def optimal_layout_def shared_width_def Let_def
        cong: if_cong)
  have "countOptimalSize st LayoutMediaGroup g =
      (if ?fits \<and> list_all is_int32 ?sums then ?res else Inl UndefinedBehaviour)"
  proof (cases ?fits)
    case False
    then have "store_layout (shared_width g) 0 layout (parts g) = Inl UndefinedBehaviour"
      using st by simp
    with False show ?thesis unfolding run by simp
  next
    case True
    then have st': "store_layout (shared_width g) 0 layout (parts g) = Inr (?mw, ?mh, ?ps)"
      using st by simp
    have run': "countOptimalSize st LayoutMediaGroup g =
        (case add_caption st ?g1 ?mw ?mh of
              Inl e \<Rightarrow> Inl e
            | Inr minHeight \<Rightarrow> Inr (QSize ?mw minHeight, ?g1\<lparr>parts := ?ps\<rparr>))"
      by (simp only: run st' sum.case prod.case)
    show ?thesis
    proof (cases "list_all is_int32 ?sums")
      case False
      then have "add_caption st ?g1 ?mw ?mh = Inl UndefinedBehaviour"
        using ac by simp
      with False show ?thesis unfolding run' by simp
    next
      case t: True
      then have "add_caption st ?g1 ?mw ?mh =
          Inr (if isEmpty (caption g) then ?mh
                 else if isBubbleBottom g then ?mh + ?extra + msgPadding_bottom st
                 else ?mh + ?extra)"
        using ac by simp
      with True t show ?thesis unfolding run' capeq by simp
    qed
  qed
  then show ?thesis unfolding Let_def .
qed

theorem countOptimalSize_size_witness:
  "optimal_layout ex_style ex_packer ex_captioned =
     Inr [\<lparr>layout_geometry = QRect 0 0 300 40, layout_sides = {Left, Right, Top}\<rparr>,
          \<lparr>layout_geometry = QRect 0 40 300 50, layout_sides = {Left, Right, Bottom}\<rparr>] \<and>
   length (parts ex_captioned) = 2 \<and>
   countOptimalSize ex_style ex_packer ex_captioned =
     Inr (QSize 300 139,
          ex_captioned\<lparr>caption := ex_caption\<lparr>skipBlock := (30, 16)\<rparr>,
            parts := [\<lparr>item = 1, content = ex_file 40, initialGeometry = QRect 0 0 300 40,
                       geometry = QRect 0 0 0 0, sides = {Left, Right, Top}\<rparr>,
                      \<lparr>item = 2, content = ex_file 50, initialGeometry = QRect 0 40 300 50,
                       geometry = QRect 0 0 0 0, sides = {Left, Right, Bottom}\<rparr>]\<rparr>)"
proof -
  let ?layout = "[\<lparr>layout_geometry = QRect 0 0 300 40, layout_sides = {Left, Right, Top}\<rparr>,
          \<lparr>layout_geometry = QRect 0 40 300 50, layout_sides = {Left, Right, Bottom}\<rparr>]"
  have l: "optimal_layout ex_style ex_packer ex_captioned = Inr ?layout"
    by (auto simp add: optimal_layout_def shared_width_def ex_captioned_def ex_column_def
        ex_file_def LayoutPlaylist_def add_side_def Let_def is_int32_def)
  have n: "length ?layout = length (parts ex_captioned)"
    by (simp add: ex_captioned_def ex_column_def)
  have n2: "length (parts ex_captioned) = 2"
    by (simp add: ex_captioned_def ex_column_def)
  have r: "countOptimalSize ex_style ex_packer ex_captioned =
     Inr (QSize 300 139,
          ex_captioned\<lparr>caption := ex_caption\<lparr>skipBlock := (30, 16)\<rparr>,
            parts := [\<lparr>item = 1, content = ex_file 40, initialGeometry = QRect 0 0 300 40,
                       geometry = QRect 0 0 0 0, sides = {Left, Right, Top}\<rparr>,
                      \<lparr>item = 2, content = ex_file 50, initialGeometry = QRect 0 40 300 50,
                       geometry = QRect 0 0 0 0, sides = {Left, Right, Bottom}\<rparr>]\<rparr>)"
    using countOptimalSize_size [OF l n]
    by (simp add: Let_def right_edge_def bottom_edge_def is_int32_def ex_captioned_def
        ex_column_def ex_file_def ex_caption_def ex_style_def)
  from l n2 r show ?thesis by simp
qed

text \<open>
  Four inputs on which the claim fails as stated. A group without members in grid mode has
  no rectangle at all, and the function returns the starting values 0 and 0. A column member
  whose content is naturally wider (300) than the optimal grouped size it answers (200 by
  40): the only rectangle ends at 200 and the function returns 300, the width accumulated by
  the first loop. A packer that places a picture 800 wide at \<open>x = 2147483647\<close>: the right
  edge is not an \<^verbatim>\<open>int\<close>. And a caption whose height is 2147483647: the sum with the caption
  skip is not an \<^verbatim>\<open>int\<close>.
\<close>

theorem countOptimalSize_counterexample:
  "countOptimalSize ex_style ex_packer ex_fresh = Inr (QSize 0 0, ex_fresh) \<and>
   countOptimalSize ex_style ex_packer ex_single =
     Inr (QSize 300 40,
          ex_single\<lparr>parts := [\<lparr>item = 1, content = ex_narrow, initialGeometry = QRect 0 0 200 40,
                                geometry = QRect 0 0 0 0,
                                sides = {Left, Right, Top, Bottom}\<rparr>]\<rparr>) \<and>
   Max (right_edge ` set [QRect 0 0 200 40]) = 200 \<and>
   optimal_layout ex_style ex_packer_far ex_small =
     Inr [\<lparr>layout_geometry = QRect 2147483647 0 80 60,
           layout_sides = {Left, Right, Top, Bottom}\<rparr>] \<and>
   countOptimalSize ex_style ex_packer_far ex_small = Inl UndefinedBehaviour \<and>
   countOptimalSize ex_style ex_packer (ex_column\<lparr>caption := ex_caption_high\<rparr>)
     = Inl UndefinedBehaviour"
  by (auto simp add: countOptimalSize_def optimal_layout_def shared_width_def ex_single_def
      ex_narrow_def no_caption_def ex_fresh_def ex_packer_def ex_packer_far_def ex_small_def
      ex_thumb_def ex_column_def ex_file_def ex_caption_high_def ex_style_def
      LayoutPlaylist_def add_side_def add_caption_def caption_terms_def countHeight_def
      right_edge_def Let_def is_int32_def)

text \<open>
  In column mode the width accumulated by the first loop is the one offered to every member.
  When every member answers an optimal size of exactly the offered width, every rectangle of
  the playlist layout ends at that width, and \<open>maxWidth\<close> is the greatest right edge: the
  natural widths exceed the right edges only for a member that answers another width.
\<close>

lemma LayoutPlaylist_loop_right_edges:
  "LayoutPlaylist_loop w tp sizes = Inr result \<Longrightarrow>
     length result = length sizes \<and> (\<forall>l\<in>set result. right_edge (layout_geometry l) = w)"
proof (induction sizes arbitrary: tp result)
  case Nil
  then show ?case by simp
next
  case (Cons s sizes)
  from Cons.prems obtain rest where
    rest: "LayoutPlaylist_loop w (tp + size_height s) sizes = Inr rest"
    and result: "result = \<lparr>layout_geometry = QRect 0 tp w (size_height s),
                            layout_sides = {Left, Right}\<rparr> # rest"
    by (auto split: if_splits sum.splits)
  from Cons.IH [OF rest] result show ?case by (simp add: right_edge_def)
qed

lemma LayoutPlaylist_right_edges:
  assumes "LayoutPlaylist sizes = Inr result"
  shows "length result = length sizes \<and> sizes \<noteq> [] \<and>
     (\<forall>l\<in>set result. right_edge (layout_geometry l) = Max (set (map size_width sizes)))"
proof -
  let ?w = "Max (set (map size_width sizes))"
  from assms have ne: "sizes \<noteq> []" by (auto simp add: LayoutPlaylist_def split: if_splits)
  with assms obtain r0 where r0: "LayoutPlaylist_loop ?w 0 sizes = Inr r0"
    and result: "result = (r0[0 := add_side Top (r0 ! 0)])
                   [length r0 - 1 := add_side Bottom (r0[0 := add_side Top (r0 ! 0)] ! (length r0 - 1))]"
    by (auto simp add: LayoutPlaylist_def Let_def split: sum.splits)
  from LayoutPlaylist_loop_right_edges [OF r0]
  have len: "length r0 = length sizes" and edges: "\<forall>l\<in>set r0. right_edge (layout_geometry l) = ?w"
    by simp_all
  have g: "layout_geometry (add_side sd l) = layout_geometry l" for sd l
    by (simp add: add_side_def)
  have upd: "layout_geometry (xs[k := add_side sd (xs ! k)] ! i) = layout_geometry (xs ! i)"
    if "i < length xs" for xs :: "GroupMediaLayout list" and k i sd
    using that by (cases "i = k") (simp_all add: g)
  have "right_edge (layout_geometry (result ! i)) = ?w" if "i < length result" for i
  proof -
    let ?r1 = "r0[0 := add_side Top (r0 ! 0)]"
    from that have i: "i < length r0" by (simp add: result)
    then have i1: "i < length ?r1" by simp
    from edges i have "right_edge (layout_geometry (r0 ! i)) = ?w" by simp
    moreover have "layout_geometry (result ! i) = layout_geometry (?r1 ! i)"
      unfolding result using i1 by (rule upd)
    moreover have "layout_geometry (?r1 ! i) = layout_geometry (r0 ! i)"
      using i by (rule upd)
    ultimately show ?thesis by simp
  qed
  then have "\<forall>l\<in>set result. right_edge (layout_geometry l) = ?w"
    by (auto simp add: in_set_conv_nth)
  with len ne show ?thesis by (simp add: result)
qed

lemma optimal_sizes_widths:
  assumes "\<forall>p\<in>set ps. \<forall>last. size_width (sizeForGroupingOptimal (content p) mw last) = mw"
  shows "length (optimal_sizes mw n i ps) = length ps \<and>
     (\<forall>s\<in>set (optimal_sizes mw n i ps). size_width s = mw)"
  using assms by (induction ps arbitrary: i) simp_all

lemma countOptimalSize_column_width:
  assumes "mode g = Column"
    and "\<forall>p\<in>set (parts g). \<forall>last.
           size_width (sizeForGroupingOptimal (content p) (shared_width g) last) = shared_width g"
    and "optimal_layout st LayoutMediaGroup g = Inr layout"
  shows "Max (insert 0 (right_edge ` set (map layout_geometry layout)
                \<union> (if mode g = Column then (content_maxWidth \<circ> content) ` set (parts g)
                    else {})))
         = Max (right_edge ` set (map layout_geometry layout))"
proof -
  let ?sizes = "optimal_sizes (shared_width g) (length (parts g)) 0 (parts g)"
  let ?N = "(content_maxWidth \<circ> content) ` set (parts g)"
  from assms(1,3) have l: "LayoutPlaylist ?sizes = Inr layout"
    by (simp add: optimal_layout_def Let_def)
  from optimal_sizes_widths [OF assms(2)]
  have w: "\<forall>s\<in>set ?sizes. size_width s = shared_width g" by blast
  from LayoutPlaylist_right_edges [OF l]
  have len: "length layout = length ?sizes" and ne: "?sizes \<noteq> []"
    and edges: "\<forall>l\<in>set layout. right_edge (layout_geometry l) = Max (set (map size_width ?sizes))"
    by simp_all
  from ne w have "set (map size_width ?sizes) = {shared_width g}"
    by (cases ?sizes) auto
  with edges have e: "\<forall>l\<in>set layout. right_edge (layout_geometry l) = shared_width g" by simp
  from len ne have "layout \<noteq> []" by auto
  with e have R: "right_edge ` set (map layout_geometry layout) = {shared_width g}"
    by (cases layout) auto
  from assms(1) have sw: "shared_width g = Max (insert 0 ?N)"
    by (simp add: shared_width_Max)
  have "Max (insert (shared_width g) (insert 0 ?N)) = max (shared_width g) (Max (insert 0 ?N))"
    by (rule Max_insert) simp_all
  with sw have "Max (insert (shared_width g) (insert 0 ?N)) = shared_width g" by simp
  then have "Max (insert 0 ({shared_width g} \<union> ?N)) = Max {shared_width g}"
    by (simp add: insert_commute)
  with assms(1) show ?thesis by (simp only: R refl if_True)
qed

section \<open>Double-precision rounding\<close>

lemma round_half_even_of_int: "round_half_even (of_int n) = n"
  by (simp add: round_half_even_def)

lemma round_half_even_lower: "\<lfloor>x\<rfloor> \<le> round_half_even x"
  by (simp add: round_half_even_def Let_def)

lemma round_half_even_upper: "round_half_even x \<le> \<lfloor>x\<rfloor> + 1"
  by (simp add: round_half_even_def Let_def)

lemma round_half_even_mono:
  assumes "x \<le> y"
  shows "round_half_even x \<le> round_half_even y"
proof (cases "\<lfloor>x\<rfloor> = \<lfloor>y\<rfloor>")
  case True
  with assms show ?thesis by (auto simp add: round_half_even_def Let_def)
next
  case False
  with assms have "\<lfloor>x\<rfloor> + 1 \<le> \<lfloor>y\<rfloor>"
    using floor_mono [of x y] by linarith
  with round_half_even_upper [of x] round_half_even_lower [of y] show ?thesis by linarith
qed

lemma std_round_of_int: "std_round (of_int n) = n"
  by (simp add: std_round_def floor_eq_iff ceiling_eq_iff)

lemma std_round_mono:
  assumes "x \<le> y"
  shows "std_round x \<le> std_round y"
proof -
  have "\<lceil>x - 1 / 2\<rceil> \<le> \<lfloor>y + 1 / 2\<rfloor>" if "x < 0" "0 \<le> y"
  proof -
    from that have "\<lceil>x - 1 / 2\<rceil> \<le> 0" by (simp add: ceiling_le_iff)
    moreover from that have "0 \<le> \<lfloor>y + 1 / 2\<rfloor>" by (simp add: le_floor_iff)
    ultimately show ?thesis by linarith
  qed
  with assms show ?thesis
    by (auto simp add: std_round_def intro: floor_mono ceiling_mono)
qed

lemma ilog2_bounds:
  assumes "0 < x"
  shows "2 powi (ilog2 x) \<le> x" and "x < 2 powi (ilog2 x + 1)"
proof -
  have "2 powi (ilog2 x) \<le> x \<and> x < 2 powi (ilog2 x + 1)"
  proof (cases "1 \<le> x")
    case True
    define n where "n = nat \<lfloor>x\<rfloor>"
    define k where "k = floorlog 2 n"
    from True have n: "0 < n" by (simp add: n_def)
    from floorlog_bounds [OF n, of 2] have b: "2 ^ (k - 1) \<le> n" "n < 2 ^ k"
      by (simp_all add: k_def)
    from n have k: "0 < k" by (simp add: k_def floorlog_def)
    from True have "(of_nat n :: rat) = of_int \<lfloor>x\<rfloor>"
      by (simp add: n_def)
    then have xn: "of_nat n \<le> x" "x < of_nat n + 1"
      using floor_correct [of x] by simp_all
    have e: "ilog2 x = int (k - 1)"
      using True k by (simp add: ilog2_def n_def k_def)
    have "int (k - 1) + 1 = int k" using k by simp
    then have p: "(2::rat) powi (int (k - 1) + 1) = 2 ^ k"
      by (simp only: power_int_of_nat)
    have "(of_nat (2 ^ (k - 1)) :: rat) \<le> of_nat n"
      using b(1) by (simp only: of_nat_le_iff)
    then have lo: "(2::rat) ^ (k - 1) \<le> of_nat n" by simp
    have "(of_nat (Suc n) :: rat) \<le> of_nat (2 ^ k)"
      using b(2) by (simp only: of_nat_le_iff Suc_le_eq)
    then have hi: "(of_nat n :: rat) + 1 \<le> 2 ^ k" by simp
    from lo hi xn show ?thesis unfolding e p by (simp only: power_int_of_nat) linarith
  next
    case False
    define c where "c = \<lceil>1 / x\<rceil>"
    define n where "n = nat (c - 1)"
    define k where "k = floorlog 2 n"
    from False assms have y: "1 < 1 / x" by simp
    then have c2: "2 \<le> c" unfolding c_def by (simp add: le_ceiling_iff)
    then have n: "0 < n" and cn: "c = int n + 1" by (simp_all add: n_def)
    from floorlog_bounds [OF n, of 2] have b: "2 ^ (k - 1) \<le> n" "n < 2 ^ k"
      by (simp_all add: k_def)
    from n have k: "0 < k" by (simp add: k_def floorlog_def)
    have yc: "1 / x \<le> of_int c" "of_int c - 1 < 1 / x"
      unfolding c_def using ceiling_correct [of "1 / x"] by simp_all
    from cn have cq: "(of_int c :: rat) = of_nat n + 1" by simp
    have e: "ilog2 x = - int k"
      using False by (simp add: ilog2_def n_def k_def c_def)
    have "(of_nat (2 ^ (k - 1)) :: rat) \<le> of_nat n"
      using b(1) by (simp only: of_nat_le_iff)
    then have "(2::rat) ^ (k - 1) \<le> of_nat n" by simp
    with yc(2) cq have lo: "(2::rat) ^ (k - 1) < 1 / x" by linarith
    have "(of_nat (Suc n) :: rat) \<le> of_nat (2 ^ k)"
      using b(2) by (simp only: of_nat_le_iff Suc_le_eq)
    then have "(of_nat n :: rat) + 1 \<le> 2 ^ k" by simp
    with yc(1) cq have hi: "1 / x \<le> (2::rat) ^ k" by linarith
    have pk: "(0::rat) < 2 ^ k" "(0::rat) < 2 ^ (k - 1)" by simp_all
    from hi have "1 \<le> 2 ^ k * x"
      by (simp only: pos_divide_le_eq [OF assms])
    then have 1: "1 / 2 ^ k \<le> x"
      by (simp only: pos_divide_le_eq [OF pk(1)] mult.commute)
    from lo have "2 ^ (k - 1) * x < 1"
      by (simp only: pos_less_divide_eq [OF assms])
    then have 2: "x < 1 / 2 ^ (k - 1)"
      by (simp only: pos_less_divide_eq [OF pk(2)] mult.commute)
    have p1: "(2::rat) powi (- int k) = 1 / 2 ^ k"
      by (simp only: power_int_minus_divide power_int_of_nat)
    have "- int k + 1 = - int (k - 1)" using k by simp
    then have p2: "(2::rat) powi (- int k + 1) = 1 / 2 ^ (k - 1)"
      by (simp only: power_int_minus_divide power_int_of_nat)
    from 1 2 show ?thesis unfolding e p1 p2 by (rule conjI)
  qed
  then show "2 powi (ilog2 x) \<le> x" and "x < 2 powi (ilog2 x + 1)" by simp_all
qed


lemma ulp_split:
  "(2::rat) powi (e + 1) = 2 ^ 53 * 2 powi (e - 52)" "(2::rat) powi e = 2 ^ 52 * 2 powi (e - 52)"
proof -
  have "e + 1 = 53 + (e - 52)" by simp
  then have "(2::rat) powi (e + 1) = 2 powi (53 + (e - 52))" by (simp only:)
  also have "\<dots> = 2 powi 53 * 2 powi (e - 52)" by (rule power_int_add) simp
  finally show "(2::rat) powi (e + 1) = 2 ^ 53 * 2 powi (e - 52)" by simp
  have "e = 52 + (e - 52)" by simp
  then have "(2::rat) powi e = 2 powi (52 + (e - 52))" by (simp only:)
  also have "\<dots> = 2 powi 52 * 2 powi (e - 52)" by (rule power_int_add) simp
  finally show "(2::rat) powi e = 2 ^ 52 * 2 powi (e - 52)" by simp
qed

lemma powi_less_imp_less:
  assumes "(2::rat) powi a < 2 powi b"
  shows "a < b"
proof (rule ccontr)
  assume "\<not> a < b"
  then have "(2::rat) powi b \<le> 2 powi a"
    by (intro power_int_increasing) simp_all
  with assms show False by simp
qed

lemma float64_pos:
  "0 < x \<Longrightarrow>
     float64 x = of_int (round_half_even (x / 2 powi (ilog2 x - 52))) * 2 powi (ilog2 x - 52)"
  by (simp add: float64_def Let_def)

lemma float64_binade:
  assumes "0 < x"
  shows "2 powi (ilog2 x) \<le> float64 x" and "float64 x \<le> 2 powi (ilog2 x + 1)"
proof -
  let ?u = "(2::rat) powi (ilog2 x - 52)"
  have u: "0 < ?u" by simp
  from ilog2_bounds [OF assms] have "2 ^ 52 * ?u \<le> x" "x < 2 ^ 53 * ?u"
    by (simp_all only: ulp_split [symmetric])
  then have "2 ^ 52 \<le> x / ?u" "x / ?u \<le> 2 ^ 53"
    using u by (simp_all add: pos_le_divide_eq pos_divide_le_eq)
  then have "round_half_even (of_int (2 ^ 52)) \<le> round_half_even (x / ?u)"
    "round_half_even (x / ?u) \<le> round_half_even (of_int (2 ^ 53))"
    by (simp_all add: round_half_even_mono)
  then have "(2 ^ 52 :: int) \<le> round_half_even (x / ?u)" "round_half_even (x / ?u) \<le> (2 ^ 53 :: int)"
    by (simp_all only: round_half_even_of_int)
  then have "(of_int (2 ^ 52) :: rat) \<le> of_int (round_half_even (x / ?u))"
    "(of_int (round_half_even (x / ?u)) :: rat) \<le> of_int (2 ^ 53)"
    by (simp_all only: of_int_le_iff)
  then have "of_int (2 ^ 52) * ?u \<le> of_int (round_half_even (x / ?u)) * ?u"
    "of_int (round_half_even (x / ?u)) * ?u \<le> of_int (2 ^ 53) * ?u"
    using u by (simp_all only: mult_right_mono less_imp_le)
  then have "2 ^ 52 * ?u \<le> of_int (round_half_even (x / ?u)) * ?u"
    "of_int (round_half_even (x / ?u)) * ?u \<le> 2 ^ 53 * ?u"
    by simp_all
  then show "2 powi (ilog2 x) \<le> float64 x" and "float64 x \<le> 2 powi (ilog2 x + 1)"
    by (simp_all only: float64_pos [OF assms] ulp_split [symmetric])
qed

lemma float64_nonneg: "0 \<le> x \<Longrightarrow> 0 \<le> float64 x"
proof (cases "x = 0")
  case True
  then show ?thesis by (simp add: float64_def)
next
  case False
  assume "0 \<le> x"
  with False have "0 < x" by simp
  from float64_binade(1) [OF this] have "2 powi (ilog2 x) \<le> float64 x" .
  moreover have "(0::rat) < 2 powi (ilog2 x)" by simp
  ultimately show ?thesis by linarith
qed

lemma float64_mono:
  assumes "0 \<le> x" and "x \<le> y"
  shows "float64 x \<le> float64 y"
proof (cases "x = 0")
  case True
  with assms float64_nonneg [of y] show ?thesis by (simp add: float64_def)
next
  case False
  with assms have x: "0 < x" and y: "0 < y" by simp_all
  have "2 powi (ilog2 x) < (2::rat) powi (ilog2 y + 1)"
    using ilog2_bounds(1) [OF x] ilog2_bounds(2) [OF y] assms(2) by linarith
  then have "ilog2 x < ilog2 y + 1"
    by (rule powi_less_imp_less)
  then consider "ilog2 x = ilog2 y" | "ilog2 x + 1 \<le> ilog2 y" by linarith
  then show ?thesis
  proof cases
    case 1
    let ?u = "(2::rat) powi (ilog2 y - 52)"
    have u: "0 < ?u" by simp
    from assms(2) u have "x / ?u \<le> y / ?u" by (simp add: divide_right_mono)
    then have "(of_int (round_half_even (x / ?u)) :: rat) \<le> of_int (round_half_even (y / ?u))"
      by (simp only: of_int_le_iff round_half_even_mono)
    with u have "of_int (round_half_even (x / ?u)) * ?u \<le> of_int (round_half_even (y / ?u)) * ?u"
      by (simp only: mult_right_mono less_imp_le)
    then show ?thesis by (simp only: float64_pos [OF x] float64_pos [OF y] 1)
  next
    case 2
    then have "(2::rat) powi (ilog2 x + 1) \<le> 2 powi (ilog2 y)"
      by (intro power_int_increasing) simp_all
    with float64_binade(2) [OF x] float64_binade(1) [OF y] show ?thesis by linarith
  qed
qed

text \<open>
  The model at a familiar value: the double nearest to one tenth is
  \<open>3602879701896397 / 2 ^ 55\<close>, the number that prints as \<open>0.1000000000000000055511151231257827\<close>.
\<close>

lemma float64_one_tenth: "float64 (1 / 10) = 3602879701896397 / 2 ^ 55"
  by code_simp

lemma float64_of_int:
  assumes "\<bar>v\<bar> < 2 ^ 53"
  shows "float64 (of_int v) = of_int v"
proof (cases "v = 0")
  case True
  then show ?thesis by (simp add: float64_def)
next
  case False
  let ?x = "of_int v :: rat"
  let ?e = "ilog2 \<bar>?x\<bar>"
  from False have pos: "0 < \<bar>?x\<bar>" by simp
  have "\<bar>?x\<bar> < 2 powi 53"
    using assms by (simp flip: of_int_abs add: of_int_less_numeral_power_cancel_iff)
  with ilog2_bounds(1) [OF pos] have "(2::rat) powi ?e < 2 powi 53" by linarith
  then have "?e < 53" by (rule powi_less_imp_less)
  then have e: "?e \<le> 52" by simp
  define d where "d = nat (52 - ?e)"
  from e have "?e - 52 = - int d" by (simp add: d_def)
  then have u: "(2::rat) powi (?e - 52) = 1 / 2 ^ d"
    by (simp only: power_int_minus_divide power_int_of_nat)
  have "?x / (1 / 2 ^ d) = of_int (v * 2 ^ d)" by simp
  then have "round_half_even (?x / (1 / 2 ^ d)) = v * 2 ^ d"
    by (simp only: round_half_even_of_int)
  then have "of_int (round_half_even (?x / (1 / 2 ^ d))) * (1 / 2 ^ d) = ?x"
    by simp
  with False show ?thesis by (simp add: float64_def Let_def u)
qed

section \<open>Rescaling a grid\<close>

text \<open>
  The loop of the grid branch overflows exactly when some part has a value that is not an
  \<^verbatim>\<open>int\<close>; otherwise it writes the scaled rectangle to every part and returns the greatest
  bottom edge, the starting value included.
\<close>

lemma grid_loop_result:
  "grid_loop s f sp nh ps =
     (if \<forall>p\<in>set ps. list_all is_int32 (scaled_terms s f sp p)
      then Inr (Max (insert nh ((\<lambda>p. bottom_edge (scaled_rect s f sp p)) ` set ps)),
                map (\<lambda>p. p\<lparr>geometry := scaled_rect s f sp p\<rparr>) ps)
      else Inl UndefinedBehaviour)"
proof (induction ps arbitrary: nh)
  case Nil
  then show ?case by simp
next
  case (Cons p ps)
  let ?b = "rect_y (scaled_rect s f sp p) + rect_height (scaled_rect s f sp p)"
  have m: "Max (insert (max nh ?b) ((\<lambda>p. bottom_edge (scaled_rect s f sp p)) ` set ps))
      = Max (insert nh (insert ?b ((\<lambda>p. bottom_edge (scaled_rect s f sp p)) ` set ps)))"
    by (rule Max_insert_max) simp
  show ?case
  proof (cases "list_all is_int32 (scaled_terms s f sp p)")
    case False
    then show ?thesis by (simp add: scaled_geometry_def)
  next
    case True
    show ?thesis
    proof (cases "\<forall>p\<in>set ps. list_all is_int32 (scaled_terms s f sp p)")
      case f: False
      with True Cons.IH [of "max nh ?b"] show ?thesis
        by (simp add: scaled_geometry_def)
    next
      case t: True
      with True Cons.IH [of "max nh ?b"] m show ?thesis
        by (simp add: scaled_geometry_def bottom_edge_def)
    qed
  qed
qed

lemma countCurrentSize_grid:
  assumes "mode g = Grid" and "historyGroupWidthMin st \<le> min w (maxWidth g)"
    and "maxWidth g \<noteq> 0"
  shows "countCurrentSize st g w =
     (if is_int32 (rescaled_spacing st g w)
         \<and> (\<forall>p\<in>set (parts g). list_all is_int32
               (scaled_terms (historyGroupSkip st) (rescale_factor g w)
                  (rescaled_spacing st g w) p))
      then (case add_caption st g (min w (maxWidth g))
                   (Max (insert 0 ((\<lambda>p. bottom_edge (scaled_rect (historyGroupSkip st)
                       (rescale_factor g w) (rescaled_spacing st g w) p)) ` set (parts g)))) of
              Inl e \<Rightarrow> Inl e
            | Inr newHeight \<Rightarrow>
                Inr (QSize (min w (maxWidth g)) newHeight,
                     g\<lparr>parts := map (\<lambda>p. p\<lparr>geometry := scaled_rect (historyGroupSkip st)
                       (rescale_factor g w) (rescaled_spacing st g w) p\<rparr>) (parts g)\<rparr>))
      else Inl UndefinedBehaviour)"
proof -
  define nw where "nw = min w (maxWidth g)"
  from assms(2) have "\<not> nw < historyGroupWidthMin st" unfolding nw_def by linarith
  with assms(1,3) show ?thesis
    unfolding countCurrentSize_def Let_def rescaled_spacing_def rescale_factor_def
      nw_def [symmetric] grid_loop_result
    by simp
qed

lemma float64_one: "float64 1 = 1"
  using float64_of_int [of 1] by simp

lemma scale_one:
  assumes "is_int32 v"
  shows "scale 1 v = v"
proof -
  from assms have "\<bar>v\<bar> < 2 ^ 53" by (simp add: is_int32_def abs_less_iff)
  then show ?thesis by (simp add: scale_def float64_of_int std_round_of_int)
qed

lemma rescale_factor_natural:
  assumes "maxWidth g \<le> w" and "maxWidth g \<noteq> 0"
  shows "rescale_factor g w = 1"
  using assms by (simp add: rescale_factor_def float64_one)






lemma ex_wide_overflow:
  "countCurrentSize ex_style ex_wide 2147483647 = Inl UndefinedBehaviour"
proof -
  have 1: "mode ex_wide = Grid"
    and 2: "historyGroupWidthMin ex_style \<le> min 2147483647 (maxWidth ex_wide)"
    and 3: "maxWidth ex_wide \<noteq> 0"
    by (simp_all add: ex_wide_def ex_style_def)
  have "\<not> list_all is_int32 (scaled_terms 4 f sp (hd (parts ex_wide)))" for f sp
    by (simp add: scaled_terms_def Let_def ex_wide_def is_int32_def)
  then have "\<not> (is_int32 (rescaled_spacing ex_style ex_wide 2147483647) \<and>
       (\<forall>p\<in>set (parts ex_wide). list_all is_int32
               (scaled_terms (historyGroupSkip ex_style) (rescale_factor ex_wide 2147483647)
                  (rescaled_spacing ex_style ex_wide 2147483647) p)))"
    by (simp add: ex_wide_def ex_style_def)
  then show ?thesis
    by (simp only: countCurrentSize_grid [OF 1 2 3] if_False)
qed


section \<open>Rescaling to two widths\<close>

lemma std_round_nonneg: "0 \<le> x \<Longrightarrow> 0 \<le> std_round x"
  using std_round_mono [of 0 x] std_round_of_int [of 0] by simp

lemma scale_nonneg: "0 \<le> f \<Longrightarrow> 0 \<le> v \<Longrightarrow> 0 \<le> scale f v"
  by (simp add: scale_def std_round_nonneg float64_nonneg)

lemma scale_mono_factor:
  assumes "0 \<le> v" and "0 \<le> f1" and "f1 \<le> f2"
  shows "scale f1 v \<le> scale f2 v"
proof -
  from assms have "0 \<le> of_int v * f1" "of_int v * f1 \<le> of_int v * f2"
    by (simp_all add: mult_left_mono)
  then have "float64 (of_int v * f1) \<le> float64 (of_int v * f2)"
    by (rule float64_mono)
  then show ?thesis by (simp add: scale_def std_round_mono)
qed

lemma scale_mono_value:
  assumes "0 \<le> f" and "0 \<le> u" and "u \<le> v"
  shows "scale f u \<le> scale f v"
proof -
  from assms have "0 \<le> of_int u * f" "of_int u * f \<le> of_int v * f"
    by (simp_all add: mult_right_mono)
  then have "float64 (of_int u * f) \<le> float64 (of_int v * f)"
    by (rule float64_mono)
  then show ?thesis by (simp add: scale_def std_round_mono)
qed

lemma scale_le:
  assumes "0 \<le> f" and "f \<le> 1" and "0 \<le> v" and "is_int32 v"
  shows "scale f v \<le> v"
  using scale_mono_factor [OF assms(3) assms(1) assms(2)] scale_one [OF assms(4)] by simp

lemma rescale_factor_mono:
  assumes "0 < maxWidth g" and "0 \<le> w1" and "w1 \<le> w2"
  shows "0 \<le> rescale_factor g w1" and "rescale_factor g w1 \<le> rescale_factor g w2"
proof -
  let ?m = "of_int (maxWidth g) :: rat"
  from assms have m: "0 < ?m" by simp
  from assms have "0 \<le> min w1 (maxWidth g)" "min w1 (maxWidth g) \<le> min w2 (maxWidth g)"
    by simp_all
  then have "(0::rat) \<le> of_int (min w1 (maxWidth g))"
    "(of_int (min w1 (maxWidth g)) :: rat) \<le> of_int (min w2 (maxWidth g))"
    by (simp_all only: of_int_0_le_iff of_int_le_iff)
  with m have q: "0 \<le> of_int (min w1 (maxWidth g)) / ?m"
    "of_int (min w1 (maxWidth g)) / ?m \<le> of_int (min w2 (maxWidth g)) / ?m"
    by (simp_all add: divide_right_mono)
  from q(1) show "0 \<le> rescale_factor g w1"
    unfolding rescale_factor_def by (rule float64_nonneg)
  from q show "rescale_factor g w1 \<le> rescale_factor g w2"
    unfolding rescale_factor_def by (rule float64_mono)
qed

lemma rescale_factor_le_one:
  assumes "0 < maxWidth g" and "0 \<le> w"
  shows "rescale_factor g w \<le> 1"
proof -
  have "rescale_factor g w \<le> rescale_factor g (maxWidth g)"
    using assms
  proof (cases "w \<le> maxWidth g")
    case True
    with assms show ?thesis by (intro rescale_factor_mono(2))
  next
    case False
    then have "min w (maxWidth g) = min (maxWidth g) (maxWidth g)" by simp
    then show ?thesis by (simp add: rescale_factor_def)
  qed
  also from assms(1) have "rescale_factor g (maxWidth g) = 1"
    by (intro rescale_factor_natural) simp_all
  finally show ?thesis .
qed

lemma scaled_rect_edges:
  "rect_x (scaled_rect s f sp p) = scale f (rect_x (initialGeometry p))"
  "rect_y (scaled_rect s f sp p) = scale f (rect_y (initialGeometry p))"
  "right_edge (scaled_rect s f sp p) + (if Right \<notin> sides p then sp else 0)
     = scale f (initial_edges s p ! 2)"
  "bottom_edge (scaled_rect s f sp p) + (if Bottom \<notin> sides p then sp else 0)
     = scale f (initial_edges s p ! 3)"
  by (simp_all add: scaled_rect_def Let_def right_edge_def bottom_edge_def initial_edges_def
      numeral_3_eq_3)

text \<open>
  For a factor between 0 and 1, a non-negative skip and a part whose initial rectangle has
  non-negative fields and edges that, with the skip, are \<^verbatim>\<open>int\<close>s, every value the body
  computes is an \<^verbatim>\<open>int\<close>: each scaled value lies between 0 and the value it scales.
\<close>

lemma scaled_terms_fit:
  assumes f: "0 \<le> f" "f \<le> 1" and s: "0 \<le> s" "is_int32 s"
    and r: "0 \<le> rect_x (initialGeometry p)" "0 \<le> rect_y (initialGeometry p)"
      "0 \<le> rect_width (initialGeometry p)" "0 \<le> rect_height (initialGeometry p)"
    and e: "list_all is_int32 (initial_edges s p)"
  shows "list_all is_int32 (scaled_terms s f (scale f s) p)"
proof -
  define x y wd ht where "x = rect_x (initialGeometry p)" and "y = rect_y (initialGeometry p)"
    and "wd = rect_width (initialGeometry p)" and "ht = rect_height (initialGeometry p)"
  define gr gb where "gr = (if Right \<notin> sides p then s else 0)"
    and "gb = (if Bottom \<notin> sides p then s else 0)"
  define sr sb where "sr = (if Right \<notin> sides p then scale f s else 0)"
    and "sb = (if Bottom \<notin> sides p then scale f s else 0)"
  define a b c d where "a = scale f x" and "b = scale f y"
    and "c = scale f (x + wd + gr)" and "d = scale f (y + ht + gb)"
  from r have x: "0 \<le> x" and y: "0 \<le> y" and wd: "0 \<le> wd" and ht: "0 \<le> ht"
    by (simp_all add: x_def y_def wd_def ht_def)
  from s have gr: "0 \<le> gr" and gb: "0 \<le> gb" by (simp_all add: gr_def gb_def)
  from e have R: "x + wd + gr < 2 ^ 31" and B: "y + ht + gb < 2 ^ 31"
    by (simp_all add: initial_edges_def is_int32_def x_def y_def wd_def ht_def gr_def gb_def)
  from x wd gr R have xi: "is_int32 x" and Ri: "is_int32 (x + wd + gr)"
    by (simp_all add: is_int32_def)
  from y ht gb B have yi: "is_int32 y" and Bi: "is_int32 (y + ht + gb)"
    by (simp_all add: is_int32_def)
  have a: "0 \<le> a" "a \<le> x"
    using scale_nonneg [OF f(1) x] scale_le [OF f x xi] by (simp_all add: a_def)
  have b: "0 \<le> b" "b \<le> y"
    using scale_nonneg [OF f(1) y] scale_le [OF f y yi] by (simp_all add: b_def)
  from x wd gr have R0: "0 \<le> x + wd + gr" by simp
  from y ht gb have B0: "0 \<le> y + ht + gb" by simp
  have c: "0 \<le> c" "c \<le> x + wd + gr"
    using scale_nonneg [OF f(1) R0] scale_le [OF f R0 Ri] by (simp_all add: c_def)
  have d: "0 \<le> d" "d \<le> y + ht + gb"
    using scale_nonneg [OF f(1) B0] scale_le [OF f B0 Bi] by (simp_all add: d_def)
  have sp: "0 \<le> scale f s" "scale f s \<le> s"
    using scale_nonneg [OF f(1) s(1)] scale_le [OF f s] by simp_all
  then have sr: "0 \<le> sr" "sr \<le> gr" and sb: "0 \<le> sb" "sb \<le> gb"
    by (simp_all add: sr_def sb_def gr_def gb_def)
  have terms: "scaled_terms s f (scale f s) p =
      [x + wd, x + wd + gr, y + ht, y + ht + gb, a, b, c, c - a, c - a - sr,
       d, d - b, d - b - sb, b + (d - b - sb)]"
    by (simp add: scaled_terms_def Let_def x_def y_def wd_def ht_def gr_def gb_def sr_def sb_def
        a_def b_def c_def d_def)
  show ?thesis
    unfolding terms
    using x y wd ht gr gb R B a b c d sr sb by (simp add: is_int32_def)
qed

lemma Max_insert_le:
  fixes a :: int
  assumes "finite S" and "a \<le> Max (insert b T)" and "\<forall>x\<in>S. x \<le> Max (insert b T)"
  shows "Max (insert a S) \<le> Max (insert b T)"
  using assms by (intro Max.boundedI) auto

lemma add_caption_empty: "isEmpty (caption g) \<Longrightarrow> add_caption st g w h = Inr h"
  by (simp add: add_caption_def caption_terms_def)

text \<open>
  C2 (as amended). For a grid-mode group whose initial rectangles have non-negative fields
  and edges that, with the skip, are \<^verbatim>\<open>int\<close>s, a non-negative skip, and target widths
  \<open>0 \<le> w1 \<le> w2\<close> at or above the grid minimum and at most the natural \<open>maxWidth\<close>: neither
  call overflows in the grid branch; each writes the scaled rectangles \<open>ps1\<close> and \<open>ps2\<close> and
  reaches the caption block with the height \<open>h1\<close> and \<open>h2\<close>, the greatest bottom edge it
  wrote, which is the height returned when the caption is empty. At \<open>w1\<close> every member's
  left, its top, its right edge together with the gap it keeps to the right, and its bottom
  edge together with the gap it keeps below are no larger than at \<open>w2\<close>, as is the rescaled
  spacing. So a member touching the right (bottom) side of the group never has its right
  (bottom) edge increased. When the members touching the bottom side are the lowest, \<open>h1\<close> is
  no larger than \<open>h2\<close>.
\<close>

theorem countCurrentSize_edges_monotone:
  assumes "mode g = Grid" and "0 < maxWidth g"
    and "0 \<le> w1" and "w1 \<le> w2" and "w2 \<le> maxWidth g"
    and "historyGroupWidthMin st \<le> w1"
    and "0 \<le> historyGroupSkip st" and "is_int32 (historyGroupSkip st)"
    and "\<forall>p\<in>set (parts g).
           0 \<le> rect_x (initialGeometry p) \<and> 0 \<le> rect_y (initialGeometry p) \<and>
           0 \<le> rect_width (initialGeometry p) \<and> 0 \<le> rect_height (initialGeometry p) \<and>
           list_all is_int32 (initial_edges (historyGroupSkip st) p)"
  shows "\<exists>h1 h2 ps1 ps2.
      countCurrentSize st g w1 =
        (case add_caption st g w1 h1 of
           Inl e \<Rightarrow> Inl e | Inr h \<Rightarrow> Inr (QSize w1 h, g\<lparr>parts := ps1\<rparr>)) \<and>
      countCurrentSize st g w2 =
        (case add_caption st g w2 h2 of
           Inl e \<Rightarrow> Inl e | Inr h \<Rightarrow> Inr (QSize w2 h, g\<lparr>parts := ps2\<rparr>)) \<and>
      (isEmpty (caption g) \<longrightarrow>
         countCurrentSize st g w1 = Inr (QSize w1 h1, g\<lparr>parts := ps1\<rparr>) \<and>
         countCurrentSize st g w2 = Inr (QSize w2 h2, g\<lparr>parts := ps2\<rparr>)) \<and>
      ps1 = map (\<lambda>p. p\<lparr>geometry := scaled_rect (historyGroupSkip st) (rescale_factor g w1)
                                      (rescaled_spacing st g w1) p\<rparr>) (parts g) \<and>
      ps2 = map (\<lambda>p. p\<lparr>geometry := scaled_rect (historyGroupSkip st) (rescale_factor g w2)
                                      (rescaled_spacing st g w2) p\<rparr>) (parts g) \<and>
      h1 = Max (insert 0 ((bottom_edge \<circ> geometry) ` set ps1)) \<and>
      h2 = Max (insert 0 ((bottom_edge \<circ> geometry) ` set ps2)) \<and>
      rescaled_spacing st g w1 \<le> rescaled_spacing st g w2 \<and>
      (\<forall>i<length (parts g).
         rect_x (geometry (ps1 ! i)) \<le> rect_x (geometry (ps2 ! i)) \<and>
         rect_y (geometry (ps1 ! i)) \<le> rect_y (geometry (ps2 ! i)) \<and>
         right_edge (geometry (ps1 ! i)) + right_gap st g w1 (parts g ! i)
           \<le> right_edge (geometry (ps2 ! i)) + right_gap st g w2 (parts g ! i) \<and>
         bottom_edge (geometry (ps1 ! i)) + bottom_gap st g w1 (parts g ! i)
           \<le> bottom_edge (geometry (ps2 ! i)) + bottom_gap st g w2 (parts g ! i)) \<and>
      (bottom_row_lowest st g \<longrightarrow> h1 \<le> h2)"
proof -
  let ?s = "historyGroupSkip st"
  let ?f1 = "rescale_factor g w1" and ?f2 = "rescale_factor g w2"
  let ?sp1 = "rescaled_spacing st g w1" and ?sp2 = "rescaled_spacing st g w2"
  let ?r1 = "\<lambda>p. scaled_rect ?s ?f1 ?sp1 p" and ?r2 = "\<lambda>p. scaled_rect ?s ?f2 ?sp2 p"
  let ?ps1 = "map (\<lambda>p. p\<lparr>geometry := ?r1 p\<rparr>) (parts g)"
  let ?ps2 = "map (\<lambda>p. p\<lparr>geometry := ?r2 p\<rparr>) (parts g)"
  let ?h1 = "Max (insert 0 ((\<lambda>p. bottom_edge (?r1 p)) ` set (parts g)))"
  let ?h2 = "Max (insert 0 ((\<lambda>p. bottom_edge (?r2 p)) ` set (parts g)))"
  from assms have m1: "min w1 (maxWidth g) = w1" and m2: "min w2 (maxWidth g) = w2"
    by simp_all
  from assms have nz: "maxWidth g \<noteq> 0" by simp
  from assms have g1: "historyGroupWidthMin st \<le> min w1 (maxWidth g)"
    and g2: "historyGroupWidthMin st \<le> min w2 (maxWidth g)" by simp_all
  from assms(4) have w12: "w1 \<le> w2" .
  from assms(3) w12 have w2: "0 \<le> w2" by simp
  note f = rescale_factor_mono [OF assms(2) assms(3) w12]
  from rescale_factor_mono(1) [OF assms(2) w2 order_refl] have f2: "0 \<le> ?f2" .
  have le1: "?f1 \<le> 1" "?f2 \<le> 1"
    using rescale_factor_le_one [OF assms(2) assms(3)] rescale_factor_le_one [OF assms(2) w2]
    by simp_all
  have sp: "?sp1 \<le> ?sp2"
    unfolding rescaled_spacing_def using assms(7) f by (rule scale_mono_factor)
  have sp1: "0 \<le> ?sp1"
    unfolding rescaled_spacing_def using f(1) assms(7) by (rule scale_nonneg)
  have spi: "is_int32 ?sp1" "is_int32 ?sp2"
  proof -
    have "0 \<le> scale ?f1 ?s" "scale ?f1 ?s \<le> ?s" "0 \<le> scale ?f2 ?s" "scale ?f2 ?s \<le> ?s"
      using scale_nonneg [OF f(1) assms(7)] scale_le [OF f(1) le1(1) assms(7,8)]
        scale_nonneg [OF f2 assms(7)] scale_le [OF f2 le1(2) assms(7,8)] by simp_all
    with assms(8) show "is_int32 ?sp1" "is_int32 ?sp2"
      by (simp_all add: rescaled_spacing_def is_int32_def)
  qed
  have fit1: "\<forall>p\<in>set (parts g). list_all is_int32 (scaled_terms ?s ?f1 ?sp1 p)"
    unfolding rescaled_spacing_def
    using assms(9) by (auto intro!: scaled_terms_fit [OF f(1) le1(1) assms(7,8)])
  have fit2: "\<forall>p\<in>set (parts g). list_all is_int32 (scaled_terms ?s ?f2 ?sp2 p)"
    unfolding rescaled_spacing_def
    using assms(9) by (auto intro!: scaled_terms_fit [OF f2 le1(2) assms(7,8)])
  have run1: "countCurrentSize st g w1 =
      (case add_caption st g w1 ?h1 of
         Inl e \<Rightarrow> Inl e | Inr h \<Rightarrow> Inr (QSize w1 h, g\<lparr>parts := ?ps1\<rparr>))"
    using spi(1) fit1 unfolding countCurrentSize_grid [OF assms(1) g1 nz] m1 by simp
  have run2: "countCurrentSize st g w2 =
      (case add_caption st g w2 ?h2 of
         Inl e \<Rightarrow> Inl e | Inr h \<Rightarrow> Inr (QSize w2 h, g\<lparr>parts := ?ps2\<rparr>))"
    using spi(2) fit2 unfolding countCurrentSize_grid [OF assms(1) g2 nz] m2 by simp
  have plain: "countCurrentSize st g w1 = Inr (QSize w1 ?h1, g\<lparr>parts := ?ps1\<rparr>) \<and>
         countCurrentSize st g w2 = Inr (QSize w2 ?h2, g\<lparr>parts := ?ps2\<rparr>)"
    if "isEmpty (caption g)"
    unfolding run1 run2 using that by (simp add: add_caption_empty)
  have hs: "?h1 = Max (insert 0 ((bottom_edge \<circ> geometry) ` set ?ps1))"
    "?h2 = Max (insert 0 ((bottom_edge \<circ> geometry) ` set ?ps2))"
    by (simp_all add: image_image)
  have edges: "0 \<le> rect_x (initialGeometry p)" "0 \<le> rect_y (initialGeometry p)"
    "0 \<le> initial_edges ?s p ! 2" "0 \<le> initial_edges ?s p ! 3" if "p \<in> set (parts g)" for p
    using assms(7,9) that by (auto simp add: initial_edges_def numeral_3_eq_3)
  have mono: "rect_x (?r1 p) \<le> rect_x (?r2 p)" "rect_y (?r1 p) \<le> rect_y (?r2 p)"
    "right_edge (?r1 p) + right_gap st g w1 p \<le> right_edge (?r2 p) + right_gap st g w2 p"
    "bottom_edge (?r1 p) + bottom_gap st g w1 p \<le> bottom_edge (?r2 p) + bottom_gap st g w2 p"
    if "p \<in> set (parts g)" for p
    unfolding right_gap_def bottom_gap_def scaled_rect_edges
    using edges [OF that] f by (simp_all only: scale_mono_factor)
  have idx: "rect_x (geometry (?ps1 ! i)) \<le> rect_x (geometry (?ps2 ! i)) \<and>
         rect_y (geometry (?ps1 ! i)) \<le> rect_y (geometry (?ps2 ! i)) \<and>
         right_edge (geometry (?ps1 ! i)) + right_gap st g w1 (parts g ! i)
           \<le> right_edge (geometry (?ps2 ! i)) + right_gap st g w2 (parts g ! i) \<and>
         bottom_edge (geometry (?ps1 ! i)) + bottom_gap st g w1 (parts g ! i)
           \<le> bottom_edge (geometry (?ps2 ! i)) + bottom_gap st g w2 (parts g ! i)"
    if "i < length (parts g)" for i
    using that mono [of "parts g ! i"] by simp
  have height: "?h1 \<le> ?h2" if low: "bottom_row_lowest st g"
  proof -
    have touch: "bottom_edge (?r1 q) \<le> bottom_edge (?r2 q)"
      if "q \<in> set (parts g)" "Bottom \<in> sides q" for q
      using mono(4) [OF that(1)] that(2) by (simp add: bottom_gap_def)
    have in2: "bottom_edge (?r2 q) \<le> ?h2" if "q \<in> set (parts g)" for q
      using that by (intro Max_ge) simp_all
    have "bottom_edge (?r1 p) \<le> ?h2" if p: "p \<in> set (parts g)" for p
    proof (cases "Bottom \<in> sides p")
      case True
      with touch [OF p] in2 [OF p] show ?thesis by linarith
    next
      case False
      with low p obtain q where q: "q \<in> set (parts g)" "Bottom \<in> sides q"
        and le: "bottom_edge (initialGeometry p) + ?s \<le> bottom_edge (initialGeometry q)"
        unfolding bottom_row_lowest_def by blast
      from False have e3: "initial_edges ?s p ! 3 = bottom_edge (initialGeometry p) + ?s"
        by (simp add: initial_edges_def bottom_edge_def numeral_3_eq_3)
      from q(2) have eq: "initial_edges ?s q ! 3 = bottom_edge (initialGeometry q)"
        by (simp add: initial_edges_def bottom_edge_def numeral_3_eq_3)
      from False scaled_rect_edges(4) [of ?s ?f1 ?sp1 p]
      have "bottom_edge (?r1 p) = scale ?f1 (initial_edges ?s p ! 3) - ?sp1" by simp
      with sp1 have "bottom_edge (?r1 p) \<le> scale ?f1 (initial_edges ?s p ! 3)" by simp
      also have "\<dots> \<le> scale ?f1 (initial_edges ?s q ! 3)"
        using f(1) edges(4) [OF p] le unfolding e3 eq by (intro scale_mono_value) simp_all
      also from q(2) scaled_rect_edges(4) [of ?s ?f1 ?sp1 q]
      have "scale ?f1 (initial_edges ?s q ! 3) = bottom_edge (?r1 q)" by simp
      also note touch [OF q]
      also note in2 [OF q(1)]
      finally show ?thesis .
    qed
    then show "?h1 \<le> ?h2"
      by (intro Max_insert_le) auto
  qed
  show ?thesis
    apply (rule exI [of _ ?h1], rule exI [of _ ?h2], rule exI [of _ ?ps1], rule exI [of _ ?ps2])
    using run1 run2 plain hs sp idx height by blast
qed

theorem countCurrentSize_edges_monotone_witness:
  "mode ex_grid = Grid \<and> historyGroupWidthMin ex_style \<le> 150 \<and> 300 \<le> maxWidth ex_grid \<and>
   isEmpty (caption ex_grid) \<and> bottom_row_lowest ex_style ex_grid \<and>
   (\<exists>h1 h2 ps1 ps2.
      countCurrentSize ex_style ex_grid 150 = Inr (QSize 150 h1, ex_grid\<lparr>parts := ps1\<rparr>) \<and>
      countCurrentSize ex_style ex_grid 300 = Inr (QSize 300 h2, ex_grid\<lparr>parts := ps2\<rparr>) \<and>
      rect_x (geometry (ps1 ! 1)) \<le> rect_x (geometry (ps2 ! 1)) \<and>
      right_edge (geometry (ps1 ! 2)) \<le> right_edge (geometry (ps2 ! 2)) \<and>
      h1 \<le> h2)"
proof -
  have 1: "mode ex_grid = Grid" and 2: "0 < maxWidth ex_grid" and 3: "(0::int) \<le> 150"
    and 4: "(150::int) \<le> 300" and 5: "300 \<le> maxWidth ex_grid"
    and 6: "historyGroupWidthMin ex_style \<le> 150" and 7: "0 \<le> historyGroupSkip ex_style"
    and 8: "is_int32 (historyGroupSkip ex_style)"
    by (simp_all add: ex_grid_def ex_style_def is_int32_def)
  have 9: "\<forall>p\<in>set (parts ex_grid).
           0 \<le> rect_x (initialGeometry p) \<and> 0 \<le> rect_y (initialGeometry p) \<and>
           0 \<le> rect_width (initialGeometry p) \<and> 0 \<le> rect_height (initialGeometry p) \<and>
           list_all is_int32 (initial_edges (historyGroupSkip ex_style) p)"
    by (simp add: ex_grid_def ex_style_def initial_edges_def is_int32_def)
  have cap: "isEmpty (caption ex_grid)" by (simp add: ex_grid_def no_caption_def)
  have low: "bottom_row_lowest ex_style ex_grid"
    by (simp add: bottom_row_lowest_def ex_grid_def)
  have n: "length (parts ex_grid) = 3" by (simp add: ex_grid_def)
  have r: "Right \<in> sides (parts ex_grid ! 2)" by (simp add: ex_grid_def)
  from countCurrentSize_edges_monotone [OF 1 2 3 4 5 6 7 8 9] obtain h1 h2 ps1 ps2 where
    run: "isEmpty (caption ex_grid) \<longrightarrow>
         countCurrentSize ex_style ex_grid 150 = Inr (QSize 150 h1, ex_grid\<lparr>parts := ps1\<rparr>) \<and>
         countCurrentSize ex_style ex_grid 300 = Inr (QSize 300 h2, ex_grid\<lparr>parts := ps2\<rparr>)"
    and e: "\<forall>i<length (parts ex_grid).
         rect_x (geometry (ps1 ! i)) \<le> rect_x (geometry (ps2 ! i)) \<and>
         rect_y (geometry (ps1 ! i)) \<le> rect_y (geometry (ps2 ! i)) \<and>
         right_edge (geometry (ps1 ! i)) + right_gap ex_style ex_grid 150 (parts ex_grid ! i)
           \<le> right_edge (geometry (ps2 ! i)) + right_gap ex_style ex_grid 300 (parts ex_grid ! i) \<and>
         bottom_edge (geometry (ps1 ! i)) + bottom_gap ex_style ex_grid 150 (parts ex_grid ! i)
           \<le> bottom_edge (geometry (ps2 ! i)) + bottom_gap ex_style ex_grid 300 (parts ex_grid ! i)"
    and h: "bottom_row_lowest ex_style ex_grid \<longrightarrow> h1 \<le> h2"
    by blast
  from run cap have run':
    "countCurrentSize ex_style ex_grid 150 = Inr (QSize 150 h1, ex_grid\<lparr>parts := ps1\<rparr>)"
    "countCurrentSize ex_style ex_grid 300 = Inr (QSize 300 h2, ex_grid\<lparr>parts := ps2\<rparr>)"
    by simp_all
  from e n have "rect_x (geometry (ps1 ! 1)) \<le> rect_x (geometry (ps2 ! 1))" by simp
  moreover have "right_edge (geometry (ps1 ! 2)) \<le> right_edge (geometry (ps2 ! 2))"
  proof -
    from e n have "right_edge (geometry (ps1 ! 2)) + right_gap ex_style ex_grid 150 (parts ex_grid ! 2)
           \<le> right_edge (geometry (ps2 ! 2)) + right_gap ex_style ex_grid 300 (parts ex_grid ! 2)"
      by simp
    with r show ?thesis by (simp add: right_gap_def)
  qed
  moreover from h low have "h1 \<le> h2" by blast
  ultimately have "\<exists>h1 h2 ps1 ps2.
      countCurrentSize ex_style ex_grid 150 = Inr (QSize 150 h1, ex_grid\<lparr>parts := ps1\<rparr>) \<and>
      countCurrentSize ex_style ex_grid 300 = Inr (QSize 300 h2, ex_grid\<lparr>parts := ps2\<rparr>) \<and>
      rect_x (geometry (ps1 ! 1)) \<le> rect_x (geometry (ps2 ! 1)) \<and>
      right_edge (geometry (ps1 ! 2)) \<le> right_edge (geometry (ps2 ! 2)) \<and>
      h1 \<le> h2"
    using run' by blast
  with 1 6 5 cap low show ?thesis by blast
qed

lemma ex_scale_298:
  "scale (float64 (149 / 150)) 0 = 0" "scale (float64 (149 / 150)) 4 = 4"
  "scale (float64 (149 / 150)) 100 = 99" "scale (float64 (149 / 150)) 200 = 199"
  "scale (float64 (149 / 150)) 300 = 298" "scale (float64 (149 / 150)) (- 100) = - 99"
  by code_simp+

lemma ex_scale_299:
  "scale (float64 (299 / 300)) 0 = 0" "scale (float64 (299 / 300)) 4 = 4"
  "scale (float64 (299 / 300)) 100 = 100" "scale (float64 (299 / 300)) 200 = 199"
  "scale (float64 (299 / 300)) 300 = 299" "scale (float64 (299 / 300)) (- 100) = - 100"
  by code_simp+

lemma ex_scale_225:
  "scale (float64 (3 / 4)) 0 = 0" "scale (float64 (3 / 4)) 4 = 3"
  "scale (float64 (3 / 4)) 100 = 75" "scale (float64 (3 / 4)) 200 = 150"
  "scale (float64 (3 / 4)) 300 = 225"
  by code_simp+

lemma ex_scale_226:
  "scale (float64 (113 / 150)) 0 = 0" "scale (float64 (113 / 150)) 4 = 3"
  "scale (float64 (113 / 150)) 100 = 75" "scale (float64 (113 / 150)) 200 = 151"
  "scale (float64 (113 / 150)) 300 = 226"
  by code_simp+

lemma ex_scale_262:
  "scale (float64 (131 / 150)) 0 = 0" "scale (float64 (131 / 150)) 4 = 3"
  "scale (float64 (131 / 150)) 150 = 131" "scale (float64 (131 / 150)) 102 = 89"
  "scale (float64 (131 / 150)) 300 = 262" "scale (float64 (131 / 150)) 90 = 79"
  by code_simp+

lemma ex_scale_263:
  "scale (float64 (263 / 300)) 0 = 0" "scale (float64 (263 / 300)) 4 = 4"
  "scale (float64 (263 / 300)) 150 = 132" "scale (float64 (263 / 300)) 102 = 89"
  "scale (float64 (263 / 300)) 300 = 263" "scale (float64 (263 / 300)) 90 = 79"
  by code_simp+

text \<open>
  Three pictures in a row of natural width 300 with a spacing of 4: at the target width 299
  the middle picture is 95 wide, at 298 it is 96 wide, because its left edge rounds down one
  step earlier than its right edge does.
\<close>

lemma ex_grid_298:
  "countCurrentSize ex_style ex_grid 298 =
     Inr (QSize 298 99,
          ex_grid\<lparr>parts :=
            [\<lparr>item = 1, content = ex_photo, initialGeometry = QRect 0 0 96 100,
              geometry = QRect 0 0 95 99, sides = {Left, Top, Bottom}\<rparr>,
             \<lparr>item = 2, content = ex_photo, initialGeometry = QRect 100 0 96 100,
              geometry = QRect 99 0 96 99, sides = {Top, Bottom}\<rparr>,
             \<lparr>item = 3, content = ex_photo, initialGeometry = QRect 200 0 100 100,
              geometry = QRect 199 0 99 99, sides = {Right, Top, Bottom}\<rparr>]\<rparr>)"
  by (simp add: countCurrentSize_def ex_grid_def ex_style_def scaled_geometry_def
      scaled_terms_def scaled_rect_def add_caption_def caption_terms_def no_caption_def
      is_int32_def Let_def ex_scale_298)

lemma ex_grid_299:
  "countCurrentSize ex_style ex_grid 299 =
     Inr (QSize 299 100,
          ex_grid\<lparr>parts :=
            [\<lparr>item = 1, content = ex_photo, initialGeometry = QRect 0 0 96 100,
              geometry = QRect 0 0 96 100, sides = {Left, Top, Bottom}\<rparr>,
             \<lparr>item = 2, content = ex_photo, initialGeometry = QRect 100 0 96 100,
              geometry = QRect 100 0 95 100, sides = {Top, Bottom}\<rparr>,
             \<lparr>item = 3, content = ex_photo, initialGeometry = QRect 200 0 100 100,
              geometry = QRect 199 0 100 100, sides = {Right, Top, Bottom}\<rparr>]\<rparr>)"
  by (simp add: countCurrentSize_def ex_grid_def ex_style_def scaled_geometry_def
      scaled_terms_def scaled_rect_def add_caption_def caption_terms_def no_caption_def
      is_int32_def Let_def ex_scale_299)

text \<open>
  The same three pictures under a caption that needs two lines below a width of 200: at the
  target width 225 the caption is 199 wide and the total height is 128, at 226 it is 108.
\<close>

lemma ex_grid_caption_225:
  "countCurrentSize ex_style (ex_grid\<lparr>caption := ex_caption\<rparr>) 225 =
     Inr (QSize 225 128,
          ex_grid\<lparr>caption := ex_caption, parts :=
            [\<lparr>item = 1, content = ex_photo, initialGeometry = QRect 0 0 96 100,
              geometry = QRect 0 0 72 75, sides = {Left, Top, Bottom}\<rparr>,
             \<lparr>item = 2, content = ex_photo, initialGeometry = QRect 100 0 96 100,
              geometry = QRect 75 0 72 75, sides = {Top, Bottom}\<rparr>,
             \<lparr>item = 3, content = ex_photo, initialGeometry = QRect 200 0 100 100,
              geometry = QRect 150 0 75 75, sides = {Right, Top, Bottom}\<rparr>]\<rparr>)"
  by (simp add: countCurrentSize_def ex_grid_def ex_style_def scaled_geometry_def
      scaled_terms_def scaled_rect_def add_caption_def caption_terms_def ex_caption_def
      countHeight_def is_int32_def Let_def ex_scale_225)

lemma ex_grid_caption_226:
  "countCurrentSize ex_style (ex_grid\<lparr>caption := ex_caption\<rparr>) 226 =
     Inr (QSize 226 108,
          ex_grid\<lparr>caption := ex_caption, parts :=
            [\<lparr>item = 1, content = ex_photo, initialGeometry = QRect 0 0 96 100,
              geometry = QRect 0 0 72 75, sides = {Left, Top, Bottom}\<rparr>,
             \<lparr>item = 2, content = ex_photo, initialGeometry = QRect 100 0 96 100,
              geometry = QRect 75 0 73 75, sides = {Top, Bottom}\<rparr>,
             \<lparr>item = 3, content = ex_photo, initialGeometry = QRect 200 0 100 100,
              geometry = QRect 151 0 75 75, sides = {Right, Top, Bottom}\<rparr>]\<rparr>)"
  by (simp add: countCurrentSize_def ex_grid_def ex_style_def scaled_geometry_def
      scaled_terms_def scaled_rect_def add_caption_def caption_terms_def ex_caption_def
      countHeight_def is_int32_def Let_def ex_scale_226)

text \<open>
  Two pictures of which the higher one does not touch the bottom side: its bottom edge is the
  scaled edge less the rescaled spacing, and the spacing rounds to 3 at the target width 262
  and to 4 at 263, so the height of the group is 86 at 262 and 85 at 263.
\<close>

lemma ex_low_262:
  "countCurrentSize ex_style ex_low 262 =
     Inr (QSize 262 86,
          ex_low\<lparr>parts :=
            [\<lparr>item = 1, content = ex_photo, initialGeometry = QRect 0 0 146 98,
              geometry = QRect 0 0 128 86, sides = {Left, Top}\<rparr>,
             \<lparr>item = 2, content = ex_photo, initialGeometry = QRect 150 0 150 90,
              geometry = QRect 131 0 131 79, sides = {Right, Top, Bottom}\<rparr>]\<rparr>)"
  by (simp add: countCurrentSize_def ex_low_def ex_style_def scaled_geometry_def
      scaled_terms_def scaled_rect_def add_caption_def caption_terms_def no_caption_def
      is_int32_def Let_def ex_scale_262)

lemma ex_low_263:
  "countCurrentSize ex_style ex_low 263 =
     Inr (QSize 263 85,
          ex_low\<lparr>parts :=
            [\<lparr>item = 1, content = ex_photo, initialGeometry = QRect 0 0 146 98,
              geometry = QRect 0 0 128 85, sides = {Left, Top}\<rparr>,
             \<lparr>item = 2, content = ex_photo, initialGeometry = QRect 150 0 150 90,
              geometry = QRect 132 0 131 79, sides = {Right, Top, Bottom}\<rparr>]\<rparr>)"
  by (simp add: countCurrentSize_def ex_low_def ex_style_def scaled_geometry_def
      scaled_terms_def scaled_rect_def add_caption_def caption_terms_def no_caption_def
      is_int32_def Let_def ex_scale_263)

text \<open>
  A picture whose initial rectangle starts at \<open>x = -100\<close>: a negative value is scaled towards
  zero, so its left is \<open>-99\<close> at the target width 298 and \<open>-100\<close> at 299.
\<close>

lemma ex_shifted_298:
  "countCurrentSize ex_style ex_shifted 298 =
     Inr (QSize 298 99,
          ex_shifted\<lparr>parts :=
            [\<lparr>item = 1, content = ex_photo, initialGeometry = QRect (- 100) 0 400 100,
              geometry = QRect (- 99) 0 397 99, sides = {Left, Right, Top, Bottom}\<rparr>]\<rparr>)"
  by (simp add: countCurrentSize_def ex_shifted_def ex_style_def scaled_geometry_def
      scaled_terms_def scaled_rect_def add_caption_def caption_terms_def no_caption_def
      is_int32_def Let_def ex_scale_298)

lemma ex_shifted_299:
  "countCurrentSize ex_style ex_shifted 299 =
     Inr (QSize 299 100,
          ex_shifted\<lparr>parts :=
            [\<lparr>item = 1, content = ex_photo, initialGeometry = QRect (- 100) 0 400 100,
              geometry = QRect (- 100) 0 399 100, sides = {Left, Right, Top, Bottom}\<rparr>]\<rparr>)"
  by (simp add: countCurrentSize_def ex_shifted_def ex_style_def scaled_geometry_def
      scaled_terms_def scaled_rect_def add_caption_def caption_terms_def no_caption_def
      is_int32_def Let_def ex_scale_299)

text \<open>
  As the claim states it, it fails on each of these inputs: a member is wider at the smaller
  target width (96 at 298, 95 at 299); the total height under a caption is larger at the
  smaller width (128 at 225, 108 at 226); the height of a group whose lowest member does not
  touch the bottom side is larger at the smaller width (86 at 262, 85 at 263). A negative
  initial left makes the left edge larger at the smaller width (\<open>-99\<close> at 298, \<open>-100\<close> at
  299), and an initial right edge that leaves the \<^verbatim>\<open>int\<close> range with the skip is an
  overflow, so the sign and the range of the initial rectangles matter as well.
\<close>

theorem countCurrentSize_monotone_counterexample:
  "mode ex_grid = Grid \<and> historyGroupWidthMin ex_style = 100 \<and> maxWidth ex_grid = 300 \<and>
   countCurrentSize ex_style ex_grid 298 =
     Inr (QSize 298 99,
          ex_grid\<lparr>parts :=
            [\<lparr>item = 1, content = ex_photo, initialGeometry = QRect 0 0 96 100,
              geometry = QRect 0 0 95 99, sides = {Left, Top, Bottom}\<rparr>,
             \<lparr>item = 2, content = ex_photo, initialGeometry = QRect 100 0 96 100,
              geometry = QRect 99 0 96 99, sides = {Top, Bottom}\<rparr>,
             \<lparr>item = 3, content = ex_photo, initialGeometry = QRect 200 0 100 100,
              geometry = QRect 199 0 99 99, sides = {Right, Top, Bottom}\<rparr>]\<rparr>) \<and>
   countCurrentSize ex_style ex_grid 299 =
     Inr (QSize 299 100,
          ex_grid\<lparr>parts :=
            [\<lparr>item = 1, content = ex_photo, initialGeometry = QRect 0 0 96 100,
              geometry = QRect 0 0 96 100, sides = {Left, Top, Bottom}\<rparr>,
             \<lparr>item = 2, content = ex_photo, initialGeometry = QRect 100 0 96 100,
              geometry = QRect 100 0 95 100, sides = {Top, Bottom}\<rparr>,
             \<lparr>item = 3, content = ex_photo, initialGeometry = QRect 200 0 100 100,
              geometry = QRect 199 0 100 100, sides = {Right, Top, Bottom}\<rparr>]\<rparr>) \<and>
   \<not> rect_width (QRect 99 0 96 99) \<le> rect_width (QRect 100 0 95 100) \<and>
   mode (ex_grid\<lparr>caption := ex_caption\<rparr>) = Grid \<and>
   maxWidth (ex_grid\<lparr>caption := ex_caption\<rparr>) = 300 \<and>
   countCurrentSize ex_style (ex_grid\<lparr>caption := ex_caption\<rparr>) 225 =
     Inr (QSize 225 128,
          ex_grid\<lparr>caption := ex_caption, parts :=
            [\<lparr>item = 1, content = ex_photo, initialGeometry = QRect 0 0 96 100,
              geometry = QRect 0 0 72 75, sides = {Left, Top, Bottom}\<rparr>,
             \<lparr>item = 2, content = ex_photo, initialGeometry = QRect 100 0 96 100,
              geometry = QRect 75 0 72 75, sides = {Top, Bottom}\<rparr>,
             \<lparr>item = 3, content = ex_photo, initialGeometry = QRect 200 0 100 100,
              geometry = QRect 150 0 75 75, sides = {Right, Top, Bottom}\<rparr>]\<rparr>) \<and>
   countCurrentSize ex_style (ex_grid\<lparr>caption := ex_caption\<rparr>) 226 =
     Inr (QSize 226 108,
          ex_grid\<lparr>caption := ex_caption, parts :=
            [\<lparr>item = 1, content = ex_photo, initialGeometry = QRect 0 0 96 100,
              geometry = QRect 0 0 72 75, sides = {Left, Top, Bottom}\<rparr>,
             \<lparr>item = 2, content = ex_photo, initialGeometry = QRect 100 0 96 100,
              geometry = QRect 75 0 73 75, sides = {Top, Bottom}\<rparr>,
             \<lparr>item = 3, content = ex_photo, initialGeometry = QRect 200 0 100 100,
              geometry = QRect 151 0 75 75, sides = {Right, Top, Bottom}\<rparr>]\<rparr>) \<and>
   \<not> (128::int) \<le> 108 \<and>
   mode ex_low = Grid \<and> maxWidth ex_low = 300 \<and> isEmpty (caption ex_low) \<and>
   \<not> bottom_row_lowest ex_style ex_low \<and>
   countCurrentSize ex_style ex_low 262 =
     Inr (QSize 262 86,
          ex_low\<lparr>parts :=
            [\<lparr>item = 1, content = ex_photo, initialGeometry = QRect 0 0 146 98,
              geometry = QRect 0 0 128 86, sides = {Left, Top}\<rparr>,
             \<lparr>item = 2, content = ex_photo, initialGeometry = QRect 150 0 150 90,
              geometry = QRect 131 0 131 79, sides = {Right, Top, Bottom}\<rparr>]\<rparr>) \<and>
   countCurrentSize ex_style ex_low 263 =
     Inr (QSize 263 85,
          ex_low\<lparr>parts :=
            [\<lparr>item = 1, content = ex_photo, initialGeometry = QRect 0 0 146 98,
              geometry = QRect 0 0 128 85, sides = {Left, Top}\<rparr>,
             \<lparr>item = 2, content = ex_photo, initialGeometry = QRect 150 0 150 90,
              geometry = QRect 132 0 131 79, sides = {Right, Top, Bottom}\<rparr>]\<rparr>) \<and>
   \<not> (86::int) \<le> 85 \<and>
   mode ex_shifted = Grid \<and> maxWidth ex_shifted = 300 \<and>
   countCurrentSize ex_style ex_shifted 298 =
     Inr (QSize 298 99,
          ex_shifted\<lparr>parts :=
            [\<lparr>item = 1, content = ex_photo, initialGeometry = QRect (- 100) 0 400 100,
              geometry = QRect (- 99) 0 397 99, sides = {Left, Right, Top, Bottom}\<rparr>]\<rparr>) \<and>
   countCurrentSize ex_style ex_shifted 299 =
     Inr (QSize 299 100,
          ex_shifted\<lparr>parts :=
            [\<lparr>item = 1, content = ex_photo, initialGeometry = QRect (- 100) 0 400 100,
              geometry = QRect (- 100) 0 399 100, sides = {Left, Right, Top, Bottom}\<rparr>]\<rparr>) \<and>
   \<not> rect_x (QRect (- 99) 0 397 99) \<le> rect_x (QRect (- 100) 0 399 100) \<and>
   mode ex_wide = Grid \<and> maxWidth ex_wide = 2147483647 \<and>
   countCurrentSize ex_style ex_wide 2147483647 = Inl UndefinedBehaviour"
proof -
  have a: "mode ex_grid = Grid \<and> historyGroupWidthMin ex_style = 100 \<and> maxWidth ex_grid = 300 \<and>
      \<not> rect_width (QRect 99 0 96 99) \<le> rect_width (QRect 100 0 95 100) \<and>
      mode (ex_grid\<lparr>caption := ex_caption\<rparr>) = Grid \<and>
      maxWidth (ex_grid\<lparr>caption := ex_caption\<rparr>) = 300 \<and> \<not> (128::int) \<le> 108"
    by (simp add: ex_grid_def ex_style_def)
  have b: "mode ex_low = Grid \<and> maxWidth ex_low = 300 \<and> isEmpty (caption ex_low) \<and>
      \<not> bottom_row_lowest ex_style ex_low \<and> \<not> (86::int) \<le> 85"
    by (simp add: ex_low_def ex_style_def no_caption_def bottom_row_lowest_def bottom_edge_def)
  have c: "mode ex_shifted = Grid \<and> maxWidth ex_shifted = 300 \<and>
      \<not> rect_x (QRect (- 99) 0 397 99) \<le> rect_x (QRect (- 100) 0 399 100) \<and>
      mode ex_wide = Grid \<and> maxWidth ex_wide = 2147483647"
    by (simp add: ex_shifted_def ex_wide_def)
  from a b c show ?thesis
    by (simp only: ex_grid_298 ex_grid_299 ex_grid_caption_225 ex_grid_caption_226
        ex_low_262 ex_low_263 ex_shifted_298 ex_shifted_299 ex_wide_overflow simp_thms)
qed

end
